theory Spec2Isabelle
  imports Main "HOL-Library.Sublist"
begin

section \<open>JavaScript strings\<close>

text \<open>
  The bot works on JavaScript strings. A string is modelled as a list of characters, a
  character being a code unit below 256 (the Latin-1 range). On this range
  \<open>toUpperCase\<close> maps \<open>a\<close>..\<open>z\<close> and the accented small letters 0xE0..0xFE (but not the
  division sign 0xF7) to the letter 32 places below, and the sharp s 0xDF to \<open>SS\<close>;
  \<open>toLowerCase\<close> maps \<open>A\<close>..\<open>Z\<close> and 0xC0..0xDE (but not the multiplication sign 0xD7) to
  the letter 32 places above. The upper case forms of the micro sign 0xB5 and of the
  y with diaeresis 0xFF lie outside the range; no other character has them, and the
  two characters stand for them. White space (\<open>trim\<close>, \<open>\s\<close>) is tab, line feed,
  vertical tab, form feed, carriage return, space and the no-break space 0xA0.
\<close>

definition isLower :: "char \<Rightarrow> bool" where
  "isLower c = (97 \<le> (of_char c :: nat) \<and> (of_char c :: nat) \<le> 122)"

definition isUpper :: "char \<Rightarrow> bool" where
  "isUpper c = (65 \<le> (of_char c :: nat) \<and> (of_char c :: nat) \<le> 90)"

definition isDigit :: "char \<Rightarrow> bool" where
  "isDigit c = (48 \<le> (of_char c :: nat) \<and> (of_char c :: nat) \<le> 57)"

definition isSpace :: "char \<Rightarrow> bool" where
  "isSpace c = ((of_char c :: nat) \<in> {9, 10, 11, 12, 13, 32, 160})"

definition isLatinLower :: "char \<Rightarrow> bool" where
  "isLatinLower c =
     (224 \<le> (of_char c :: nat) \<and> (of_char c :: nat) \<le> 254 \<and> (of_char c :: nat) \<noteq> 247)"

definition isLatinUpper :: "char \<Rightarrow> bool" where
  "isLatinUpper c =
     (192 \<le> (of_char c :: nat) \<and> (of_char c :: nat) \<le> 222 \<and> (of_char c :: nat) \<noteq> 215)"

text \<open>The upper and the lower case form of one character, where it is one character
  (this is also how the \<open>i\<close> flag of a regular expression folds a character).\<close>

definition toUpperChar :: "char \<Rightarrow> char" where
  "toUpperChar c =
     (if isLower c \<or> isLatinLower c then char_of ((of_char c :: nat) - 32) else c)"

definition toLowerChar :: "char \<Rightarrow> char" where
  "toLowerChar c =
     (if isUpper c \<or> isLatinUpper c then char_of ((of_char c :: nat) + 32) else c)"

definition upperString :: "char \<Rightarrow> string" where
  "upperString c = (if c = CHR 0xDF then ''SS'' else [toUpperChar c])"

definition toUpperCase :: "string \<Rightarrow> string" where
  "toUpperCase s = concat (map upperString s)"

definition toLowerCase :: "string \<Rightarrow> string" where
  "toLowerCase s = map toLowerChar s"

definition trim :: "string \<Rightarrow> string" where
  "trim s = rev (dropWhile isSpace (rev (dropWhile isSpace s)))"

text \<open>\<open>s.startsWith(m)\<close> and \<open>s.includes(m)\<close>.\<close>

fun startsWith :: "string \<Rightarrow> string \<Rightarrow> bool" where
  "startsWith s [] = True"
| "startsWith [] (m # ms) = False"
| "startsWith (c # cs) (m # ms) = (c = m \<and> startsWith cs ms)"

fun str_includes :: "string \<Rightarrow> string \<Rightarrow> bool" where
  "str_includes [] m = (m = [])"
| "str_includes (c # cs) m = (startsWith (c # cs) m \<or> str_includes cs m)"

section \<open>Format classifier\<close>

text \<open>
  \<open>detectOwner\<close> of \<open>parseAktivasi\<close> (src/index.js). The tags are the strings the code
  returns; the fallback tag (the manual, label based format) is the empty string.
\<close>

definition detectOwner :: "string \<Rightarrow> string" where
  "detectOwner text =
     (let upperText = toUpperCase text in
      if str_includes upperText ''CHANNEL : DIGIPOS'' \<or>
         str_includes upperText ''DATE CREATED'' \<or>
         str_includes upperText ''WORKORDER : WO'' then ''TSEL''
      else if str_includes upperText ''INDIBIZ'' \<or> str_includes upperText ''HSI'' then ''BGES''
      else if str_includes upperText ''WMS'' \<or> str_includes upperText ''MWS'' then ''WMS''
      else '''')"

text \<open>
  The classifier in the words of the specification. A marker is contained in a text
  without regard to case when the upper case form of the marker occurs in the upper
  case form of the text. \<open>classify\<close> reads every marker so; \<open>classifyStated\<close> reads the
  three markers of TSEL so and the other four as they are written, which is how the
  specification marks them.
\<close>

definition containsCI :: "string \<Rightarrow> string \<Rightarrow> bool" where
  "containsCI text marker = sublist (toUpperCase marker) (toUpperCase text)"

definition classify :: "string \<Rightarrow> string" where
  "classify text =
     (if containsCI text ''CHANNEL : DIGIPOS'' \<or> containsCI text ''DATE CREATED'' \<or>
         containsCI text ''WORKORDER : WO'' then ''TSEL''
      else if containsCI text ''INDIBIZ'' \<or> containsCI text ''HSI'' then ''BGES''
      else if containsCI text ''WMS'' \<or> containsCI text ''MWS'' then ''WMS''
      else '''')"

definition classifyStated :: "string \<Rightarrow> string" where
  "classifyStated text =
     (if containsCI text ''CHANNEL : DIGIPOS'' \<or> containsCI text ''DATE CREATED'' \<or>
         containsCI text ''WORKORDER : WO'' then ''TSEL''
      else if sublist ''INDIBIZ'' text \<or> sublist ''HSI'' text then ''BGES''
      else if sublist ''WMS'' text \<or> sublist ''MWS'' text then ''WMS''
      else '''')"

section \<open>Regular expressions\<close>

text \<open>
  The regular expressions of the bot are sequences of single characters, character
  classes with a quantifier, capture groups and word boundaries; none has an
  alternative, a back reference or a look-ahead, and no group stands under a quantifier.
  They are written here as terms of \<open>regex\<close>, one definition for each literal of the
  source, and run by a backtracking matcher that returns the successes in the order
  in which ECMAScript tries them: a greedy quantifier takes one more character
  before it tries to stop, a lazy one stops before it takes one more.

  A state of the matcher is the character before the current position (for \<open>\b\<close>),
  the rest of the input and the captures so far.
\<close>

type_synonym captures = "nat \<Rightarrow> string option"

type_synonym mstate = "char option \<times> string \<times> captures"

datatype regex =
    Chr "char \<Rightarrow> bool"
  | Rep bool nat "nat option" "char \<Rightarrow> bool"
  | Seq regex regex
  | Grp nat regex
  | WordB
  | Eps

fun rep :: "bool \<Rightarrow> nat \<Rightarrow> nat option \<Rightarrow> (char \<Rightarrow> bool) \<Rightarrow> char option \<Rightarrow> string \<Rightarrow> captures
    \<Rightarrow> mstate list" where
  "rep greedy lo hi P p [] c = (if lo = 0 then [(p, [], c)] else [])"
| "rep greedy lo hi P p (x # xs) c =
     (let stop = (if lo = 0 then [(p, x # xs, c)] else []);
          more = (if P x \<and> hi \<noteq> Some 0
                  then rep greedy (lo - 1) (map_option (\<lambda>h. h - 1) hi) P (Some x) xs c
                  else [])
      in if greedy then more @ stop else stop @ more)"

definition isWordChar :: "char \<Rightarrow> bool" where
  "isWordChar c = (isUpper c \<or> isLower c \<or> isDigit c \<or> c = CHR ''_'')"

definition wordBefore :: "char option \<Rightarrow> bool" where
  "wordBefore p = (case p of None \<Rightarrow> False | Some x \<Rightarrow> isWordChar x)"

definition wordAfter :: "string \<Rightarrow> bool" where
  "wordAfter s = (case s of [] \<Rightarrow> False | x # xs \<Rightarrow> isWordChar x)"

fun rmatch :: "regex \<Rightarrow> mstate \<Rightarrow> mstate list" where
  "rmatch (Chr P) (p, s, c) =
     (case s of [] \<Rightarrow> [] | x # xs \<Rightarrow> if P x then [(Some x, xs, c)] else [])"
| "rmatch (Rep greedy lo hi P) (p, s, c) = rep greedy lo hi P p s c"
| "rmatch (Seq a b) st = concat (map (rmatch b) (rmatch a st))"
| "rmatch (Grp i a) (p, s, c) =
     map (\<lambda>(p', s', c'). (p', s', c'(i \<mapsto> take (length s - length s') s)))
       (rmatch a (p, s, c))"
| "rmatch WordB (p, s, c) = (if wordBefore p \<noteq> wordAfter s then [(p, s, c)] else [])"
| "rmatch Eps st = [st]"

text \<open>
  The result of \<open>text.match(re)\<close> for a regular expression without the \<open>g\<close> flag: the
  first position at which the expression matches, the matched piece and the captures;
  \<open>None\<close> is JavaScript's \<open>null\<close>.
\<close>

record rmatched =
  index :: nat
  whole :: string
  groups :: captures

fun search :: "regex \<Rightarrow> char option \<Rightarrow> string \<Rightarrow> nat \<Rightarrow> rmatched option" where
  "search r p [] i =
     (case rmatch r (p, [], Map.empty) of
        [] \<Rightarrow> None
      | (p', s', c') # _ \<Rightarrow> Some \<lparr>index = i, whole = [], groups = c'\<rparr>)"
| "search r p (x # xs) i =
     (case rmatch r (p, x # xs, Map.empty) of
        [] \<Rightarrow> search r (Some x) xs (Suc i)
      | (p', s', c') # _ \<Rightarrow>
          Some \<lparr>index = i, whole = take (length (x # xs) - length s') (x # xs), groups = c'\<rparr>)"

definition str_match :: "string \<Rightarrow> regex \<Rightarrow> rmatched option" where
  "str_match text r = search r None text 0"

definition group :: "rmatched \<Rightarrow> nat \<Rightarrow> string" where
  "group m i = (case groups m i of None \<Rightarrow> [] | Some v \<Rightarrow> v)"

text \<open>
  The result of \<open>text.match(re)\<close> for an expression with the \<open>g\<close> flag: the matched
  pieces from left to right, each search starting where the match before it ended
  (one character further after an empty match); the empty list is \<open>null\<close>.
\<close>

lemma search_Nil_whole: "search r p [] i = Some m \<Longrightarrow> whole m = []"
  by (auto split: list.splits)

function matchAllFrom :: "regex \<Rightarrow> char option \<Rightarrow> string \<Rightarrow> string list" where
  "matchAllFrom r p s =
     (case search r p s 0 of
        None \<Rightarrow> []
      | Some m \<Rightarrow>
          (let e = index m + length (whole m) in
           if whole m = []
           then (if length s \<le> e then [whole m]
                 else whole m # matchAllFrom r (Some (s ! e)) (drop (Suc e) s))
           else whole m # matchAllFrom r (Some (s ! (e - 1))) (drop e s)))"
  by pat_completeness auto
termination
proof (relation "measure (\<lambda>(r, p, s). length s)")
  show "wf (measure (\<lambda>(r, p, s). length s))" by simp
next
  fix r p s m e
  assume "search r p s 0 = Some m" "e = index m + length (whole m)"
    "whole m = []" "\<not> length s \<le> e"
  then show "((r, Some (s ! e), drop (Suc e) s), r, p, s) \<in> measure (\<lambda>(r, p, s). length s)"
    by simp
next
  fix r p s m e
  assume a: "search r p s 0 = Some m" "e = index m + length (whole m)" "whole m \<noteq> []"
  then have "s \<noteq> []" using search_Nil_whole by blast
  with a show "((r, Some (s ! (e - 1)), drop e s), r, p, s) \<in> measure (\<lambda>(r, p, s). length s)"
    by simp
qed

declare matchAllFrom.simps [simp del]

definition str_matchAll :: "string \<Rightarrow> regex \<Rightarrow> string list" where
  "str_matchAll text r = matchAllFrom r None text"

text \<open>Abbreviations for the quantifiers and for a literal piece of an expression.\<close>

abbreviation star :: "(char \<Rightarrow> bool) \<Rightarrow> regex" where
  "star P \<equiv> Rep True 0 None P"

abbreviation plus1 :: "(char \<Rightarrow> bool) \<Rightarrow> regex" where
  "plus1 P \<equiv> Rep True 1 None P"

abbreviation atLeastN :: "nat \<Rightarrow> (char \<Rightarrow> bool) \<Rightarrow> regex" where
  "atLeastN n P \<equiv> Rep True n None P"

abbreviation exactly :: "nat \<Rightarrow> (char \<Rightarrow> bool) \<Rightarrow> regex" where
  "exactly n P \<equiv> Rep True n (Some n) P"

fun seqs :: "regex list \<Rightarrow> regex" where
  "seqs [] = Eps"
| "seqs [r] = r"
| "seqs (r # rs) = Seq r (seqs rs)"

text \<open>A literal character, and the same under the \<open>i\<close> flag.\<close>

definition chr_is :: "char \<Rightarrow> char \<Rightarrow> bool" where
  "chr_is a c = (c = a)"

definition ci :: "(char \<Rightarrow> bool) \<Rightarrow> char \<Rightarrow> bool" where
  "ci P c = (P c \<or> P (toUpperChar c) \<or> P (toLowerChar c))"

definition lit :: "string \<Rightarrow> regex" where
  "lit s = seqs (map (\<lambda>a. Chr (chr_is a)) s)"

definition lit_i :: "string \<Rightarrow> regex" where
  "lit_i s = seqs (map (\<lambda>a. Chr (ci (chr_is a))) s)"

text \<open>The character classes of the source: \<open>\d\<close>, \<open>\s\<close>, \<open>.\<close>, \<open>[A-Z]\<close>, \<open>[A-Z0-9]\<close>,
  \<open>[A-Za-z0-9]\<close>, \<open>[A-Z0-9\s]\<close>, \<open>[:\s]\<close>, \<open>[A-Z0-9-]\<close>, \<open>[\/\-]\<close>.\<close>

definition dot :: "char \<Rightarrow> bool" where
  "dot c = (c \<noteq> CHR 0x0A \<and> c \<noteq> CHR 0x0D)"

definition upperOrDigit :: "char \<Rightarrow> bool" where
  "upperOrDigit c = (isUpper c \<or> isDigit c)"

definition alnum :: "char \<Rightarrow> bool" where
  "alnum c = (isUpper c \<or> isLower c \<or> isDigit c)"

definition upperDigitSpace :: "char \<Rightarrow> bool" where
  "upperDigitSpace c = (isUpper c \<or> isDigit c \<or> isSpace c)"

definition colonOrSpace :: "char \<Rightarrow> bool" where
  "colonOrSpace c = (c = CHR '':'' \<or> isSpace c)"

definition upperDigitDash :: "char \<Rightarrow> bool" where
  "upperDigitDash c = (isUpper c \<or> isDigit c \<or> c = CHR ''-'')"

definition slashOrDash :: "char \<Rightarrow> bool" where
  "slashOrDash c = (c = CHR ''/'' \<or> c = CHR ''-'')"

section \<open>Field extraction: \<open>parseAktivasi\<close>\<close>

text \<open>\<open>s.split(d)\<close> for a one character separator, \<open>ws.join(d)\<close>, and \<open>a || b\<close> on
  strings (the empty string is falsy).\<close>

fun split_on :: "char \<Rightarrow> string \<Rightarrow> string list" where
  "split_on d [] = [[]]"
| "split_on d (x # xs) =
     (if x = d then [] # split_on d xs
      else (case split_on d xs of [] \<Rightarrow> [[x]] | w # ws \<Rightarrow> (x # w) # ws))"

fun join :: "char \<Rightarrow> string list \<Rightarrow> string" where
  "join d [] = []"
| "join d [w] = w"
| "join d (w # ws) = w @ d # join d ws"

definition orElse :: "string \<Rightarrow> string \<Rightarrow> string" where
  "orElse a b = (if a \<noteq> [] then a else b)"

text \<open>
  \<open>findValue(patterns)\<close>: the first pattern that matches with a non-empty first group
  gives the result, trimmed; a pattern with the \<open>g\<close> flag (the first component of the
  pair) gives its last match. No caller passes a pattern with the \<open>g\<close> flag.
\<close>

fun findValue :: "(bool \<times> regex) list \<Rightarrow> string \<Rightarrow> string" where
  "findValue [] text = []"
| "findValue ((global, pattern) # patterns) text =
     (if global
      then (case str_matchAll text pattern of
              [] \<Rightarrow> findValue patterns text
            | m # ms \<Rightarrow> last (m # ms))
      else (case str_match text pattern of
              None \<Rightarrow> findValue patterns text
            | Some m \<Rightarrow> if group m 1 \<noteq> [] then trim (group m 1)
                        else findValue patterns text))"

text \<open>
  The shapes the field patterns share. \<open>fieldColon ws P\<close> is
  \<open>/W1\s*W2\s*:\s*(P+)/i\<close>, \<open>fieldSep ws P\<close> is \<open>/W1\s*W2[:\s]+(P+)/i\<close> and
  \<open>brand b\<close> is \<open>/(b[A-Z0-9]+)/i\<close>. Under the \<open>i\<close> flag a class of letters matches
  both cases (\<open>ci\<close>); \<open>\d\<close>, \<open>\s\<close> and \<open>.\<close> have no letters.
\<close>

fun labelWords :: "string list \<Rightarrow> regex list" where
  "labelWords [] = []"
| "labelWords [w] = [lit_i w]"
| "labelWords (w # ws) = lit_i w # star isSpace # labelWords ws"

definition fieldColon :: "string list \<Rightarrow> (char \<Rightarrow> bool) \<Rightarrow> bool \<times> regex" where
  "fieldColon ws P =
     (False, seqs (labelWords ws @ [star isSpace, lit_i '':'', star isSpace, Grp 1 (plus1 P)]))"

definition fieldSep :: "string list \<Rightarrow> (char \<Rightarrow> bool) \<Rightarrow> bool \<times> regex" where
  "fieldSep ws P = (False, seqs (labelWords ws @ [plus1 colonOrSpace, Grp 1 (plus1 P)]))"

definition brand :: "string \<Rightarrow> bool \<times> regex" where
  "brand b = (False, Grp 1 (Seq (lit_i b) (plus1 (ci upperOrDigit))))"

text \<open>The patterns of the TSEL branch.\<close>

definition re_tsel_ao1 :: "bool \<times> regex" where \<comment> \<open>\<open>/AO\s*:\s*([A-Za-z0-9]+)/i\<close>\<close>
  "re_tsel_ao1 = fieldColon [''AO''] (ci alnum)"

definition re_tsel_ao2 :: "bool \<times> regex" where \<comment> \<open>\<open>/AO\s*([A-Za-z0-9]+)/i\<close>\<close>
  "re_tsel_ao2 = (False, seqs [lit_i ''AO'', star isSpace, Grp 1 (plus1 (ci alnum))])"

definition re_tsel_workorder :: "bool \<times> regex" where
  \<comment> \<open>\<open>/WORKORDER\s*:\s*([A-Za-z0-9]+)/i\<close>\<close>
  "re_tsel_workorder = fieldColon [''WORKORDER''] (ci alnum)"

definition re_tsel_serviceNo :: "bool \<times> regex" where \<comment> \<open>\<open>/SERVICE\s*NO\s*:\s*(\d+)/i\<close>\<close>
  "re_tsel_serviceNo = fieldColon [''SERVICE'', ''NO''] isDigit"

definition re_tsel_customerName :: "bool \<times> regex" where
  \<comment> \<open>\<open>/CUSTOMER\s*NAME\s*:\s*([A-Z0-9\s]+)/i\<close>\<close>
  "re_tsel_customerName = fieldColon [''CUSTOMER'', ''NAME''] (ci upperDigitSpace)"

definition re_tsel_workzone :: "bool \<times> regex" where \<comment> \<open>\<open>/WORKZONE\s*:\s*([A-Z0-9]+)/i\<close>\<close>
  "re_tsel_workzone = fieldColon [''WORKZONE''] (ci upperOrDigit)"

definition re_tsel_snOnt :: "(bool \<times> regex) list" where
  \<comment> \<open>\<open>/SN\s*ONT\s*:\s*([A-Z0-9]+)/i\<close>, \<open>/(ZTEGDA[A-Z0-9]+)/i\<close>, \<open>/(HWTC[A-Z0-9]+)/i\<close>,
      \<open>/(HUAW[A-Z0-9]+)/i\<close>, \<open>/(FHTT[A-Z0-9]+)/i\<close>, \<open>/(FIBR[A-Z0-9]+)/i\<close>\<close>
  "re_tsel_snOnt =
     [fieldColon [''SN'', ''ONT''] (ci upperOrDigit), brand ''ZTEGDA'', brand ''HWTC'',
      brand ''HUAW'', brand ''FHTT'', brand ''FIBR'']"

definition re_tsel_nikOnt :: "bool \<times> regex" where \<comment> \<open>\<open>/NIK\s*ONT\s*:\s*(\d+)/i\<close>\<close>
  "re_tsel_nikOnt = fieldColon [''NIK'', ''ONT''] isDigit"

definition stbPattern :: "bool \<times> regex" where \<comment> \<open>\<open>/STB\s*ID\s*:\s*([A-Z0-9]+)/i\<close>\<close>
  "stbPattern = fieldColon [''STB'', ''ID''] (ci upperOrDigit)"

definition re_tsel_nikStb :: "bool \<times> regex" where \<comment> \<open>\<open>/NIK\s*STB\s*:\s*(\d+)/i\<close>\<close>
  "re_tsel_nikStb = fieldColon [''NIK'', ''STB''] isDigit"

text \<open>The patterns of the BGES and WMS branch.\<close>

definition re_aoLine :: regex where \<comment> \<open>\<open>/AO\|.*?(SC\d{6,})/g\<close>\<close>
  "re_aoLine =
     seqs [lit ''AO|'', Rep False 0 None dot, Grp 1 (Seq (lit ''SC'') (atLeastN 6 isDigit))]"

definition re_sc :: regex where \<comment> \<open>\<open>/SC(\d{6,})/\<close>\<close>
  "re_sc = seqs [lit ''SC'', Grp 1 (atLeastN 6 isDigit)]"

definition re_serviceNo :: regex where \<comment> \<open>\<open>/\b\d{11,12}\b/g\<close>\<close>
  "re_serviceNo = seqs [WordB, Rep True 11 (Some 12) isDigit, WordB]"

definition re_customer :: regex where
  \<comment> \<open>\<open>/\d{2}\/\d{2}\/\d{4}\s+\d{2}:\d{2}\s+\d+\s+([A-Z0-9\s]+?)\s{2,}/\<close>, with and
      without the \<open>g\<close> flag\<close>
  "re_customer =
     seqs [exactly 2 isDigit, lit ''/'', exactly 2 isDigit, lit ''/'', exactly 4 isDigit,
           plus1 isSpace, exactly 2 isDigit, lit '':'', exactly 2 isDigit, plus1 isSpace,
           plus1 isDigit, plus1 isSpace, Grp 1 (Rep False 1 None upperDigitSpace),
           atLeastN 2 isSpace]"

definition re_aoWorkzone :: regex where
  \<comment> \<open>\<open>/AO\|\s+([A-Z]{2,})/\<close>, with and without the \<open>g\<close> flag\<close>
  "re_aoWorkzone = seqs [lit ''AO|'', plus1 isSpace, Grp 1 (atLeastN 2 isUpper)]"

definition re_snOnt :: "(bool \<times> regex) list" where
  \<comment> \<open>\<open>/SN\s*ONT[:\s]+([A-Z0-9]+)/i\<close>, \<open>/(ZTEG[A-Z0-9]+)/i\<close>, \<open>/(HWTC[A-Z0-9]+)/i\<close>,
      \<open>/(HUAW[A-Z0-9]+)/i\<close>, \<open>/(FHTT[A-Z0-9]+)/i\<close>, \<open>/(FIBR[A-Z0-9]+)/i\<close>\<close>
  "re_snOnt =
     [fieldSep [''SN'', ''ONT''] (ci upperOrDigit), brand ''ZTEG'', brand ''HWTC'',
      brand ''HUAW'', brand ''FHTT'', brand ''FIBR'']"

definition re_nikOnt :: "bool \<times> regex" where \<comment> \<open>\<open>/NIK\s*ONT[:\s]+(\d+)/i\<close>\<close>
  "re_nikOnt = fieldSep [''NIK'', ''ONT''] isDigit"

definition re_stbId :: "bool \<times> regex" where \<comment> \<open>\<open>/STB\s*ID[:\s]+([A-Z0-9]+)/i\<close>\<close>
  "re_stbId = fieldSep [''STB'', ''ID''] (ci upperOrDigit)"

definition re_nikStb :: "bool \<times> regex" where \<comment> \<open>\<open>/NIK\s*STB[:\s]+(\d+)/i\<close>\<close>
  "re_nikStb = fieldSep [''NIK'', ''STB''] isDigit"

text \<open>The patterns of the manual branch that differ from the ones above.\<close>

definition re_ao :: "bool \<times> regex" where \<comment> \<open>\<open>/AO[:\s]+([A-Z0-9]+)/i\<close>\<close>
  "re_ao = fieldSep [''AO''] (ci upperOrDigit)"

definition re_workorder :: "bool \<times> regex" where \<comment> \<open>\<open>/WORKORDER[:\s]+([A-Z0-9-]+)/i\<close>\<close>
  "re_workorder = fieldSep [''WORKORDER''] (ci upperDigitDash)"

definition re_serviceNoField :: "bool \<times> regex" where \<comment> \<open>\<open>/SERVICE\s*NO[:\s]+(\d+)/i\<close>\<close>
  "re_serviceNoField = fieldSep [''SERVICE'', ''NO''] isDigit"

definition re_customerName :: "bool \<times> regex" where \<comment> \<open>\<open>/CUSTOMER\s*NAME[:\s]+(.+)/i\<close>\<close>
  "re_customerName = fieldSep [''CUSTOMER'', ''NAME''] dot"

definition re_owner :: "bool \<times> regex" where \<comment> \<open>\<open>/OWNER[:\s]+([A-Z0-9]+)/i\<close>\<close>
  "re_owner = fieldSep [''OWNER''] (ci upperOrDigit)"

definition re_workzone :: "bool \<times> regex" where \<comment> \<open>\<open>/WORKZONE[:\s]+([A-Z0-9]+)/i\<close>\<close>
  "re_workzone = fieldSep [''WORKZONE''] (ci upperOrDigit)"

text \<open>
  \<open>getValue(label)\<close> of the manual branch: the first line whose upper case form starts
  with the label and \<open>" :"\<close>, and of that line what follows its first colon.
\<close>

definition textLines :: "string \<Rightarrow> string list" where
  "textLines text = filter (\<lambda>l. l \<noteq> []) (map trim (split_on (CHR 0x0A) text))"

definition getValue :: "string list \<Rightarrow> string \<Rightarrow> string" where
  "getValue lines label =
     (case find (\<lambda>l. startsWith (toUpperCase l) (toUpperCase label @ '' :'')) lines of
        None \<Rightarrow> []
      | Some line \<Rightarrow> trim (join (CHR '':'') (drop 1 (split_on (CHR '':'') line))))"

record parsed =
  ao :: string
  workorder :: string
  serviceNo :: string
  customerName :: string
  owner :: string
  workzone :: string
  snOnt :: string
  nikOnt :: string
  stbId :: string
  nikStb :: string
  teknisi :: string

text \<open>
  A row of a sheet is the list of its cells; \<open>row[k] || ''\<close> reads a cell that may be
  missing. \<open>s.replace('@', '')\<close> removes the first \<open>@\<close> of \<open>s\<close>.
\<close>

type_synonym row = "string list"

definition cell :: "row \<Rightarrow> nat \<Rightarrow> string" where
  "cell r k = (if k < length r then r ! k else [])"

definition removeAt :: "string \<Rightarrow> string" where
  "removeAt s = remove1 (CHR ''@'') s"

definition parseTSEL :: "string \<Rightarrow> string \<Rightarrow> parsed" where
  "parseTSEL text tek =
     (let ao = findValue [re_tsel_ao1, re_tsel_ao2] text;
          workorder = orElse (findValue [re_tsel_workorder] text) ao;
          serviceNo = findValue [re_tsel_serviceNo] text;
          customerName = findValue [re_tsel_customerName] text;
          workzone = findValue [re_tsel_workzone] text;
          snOnt = findValue re_tsel_snOnt text;
          nikOnt = findValue [re_tsel_nikOnt] text;
          stbMatch = str_match text (snd stbPattern);
          hasStb = (case stbMatch of None \<Rightarrow> False | Some m \<Rightarrow> group m 1 \<noteq> []);
          stbId = (case stbMatch of None \<Rightarrow> [] | Some m \<Rightarrow> group m 1);
          nikStb = (if hasStb then findValue [re_tsel_nikStb] text else [])
      in \<lparr>ao = ao, workorder = workorder, serviceNo = serviceNo,
           customerName = customerName, owner = ''TSEL'', workzone = workzone,
           snOnt = snOnt, nikOnt = nikOnt, stbId = stbId, nikStb = nikStb, teknisi = tek\<rparr>)"

definition parseBGES :: "string \<Rightarrow> string \<Rightarrow> string \<Rightarrow> parsed" where
  "parseBGES text own tek =
     (let aoMatches = str_matchAll text re_aoLine;
          ao = (case aoMatches of
                  [] \<Rightarrow> []
                | m # ms \<Rightarrow>
                    (case str_match (last aoMatches) re_sc of
                       None \<Rightarrow> []
                     | Some scMatch \<Rightarrow> ''SC'' @ group scMatch 1));
          workorder = ao;
          serviceNoMatches = str_matchAll text re_serviceNo;
          serviceNo = (case serviceNoMatches of [] \<Rightarrow> [] | m # ms \<Rightarrow> last serviceNoMatches);
          customerMatches = str_matchAll text re_customer;
          customerName =
            (case customerMatches of
               [] \<Rightarrow> []
             | m # ms \<Rightarrow>
                 (case str_match m re_customer of
                    None \<Rightarrow> []
                  | Some nameMatch \<Rightarrow>
                      if group nameMatch 1 \<noteq> [] then trim (group nameMatch 1) else []));
          workzoneMatches = str_matchAll text re_aoWorkzone;
          workzone =
            (case workzoneMatches of
               [] \<Rightarrow> []
             | m # ms \<Rightarrow>
                 (case str_match (last workzoneMatches) re_aoWorkzone of
                    None \<Rightarrow> []
                  | Some wzMatch \<Rightarrow> group wzMatch 1));
          snOnt = findValue re_snOnt text;
          nikOnt = findValue [re_nikOnt] text;
          stbId = findValue [re_stbId] text;
          nikStb = findValue [re_nikStb] text
      in \<lparr>ao = ao, workorder = workorder, serviceNo = serviceNo,
           customerName = customerName, owner = own, workzone = workzone,
           snOnt = snOnt, nikOnt = nikOnt, stbId = stbId, nikStb = nikStb, teknisi = tek\<rparr>)"

definition parseManual :: "string \<Rightarrow> string \<Rightarrow> parsed" where
  "parseManual text tek =
     (let lines = textLines text in
      \<lparr>ao = orElse (getValue lines ''AO'') (findValue [re_ao] text),
       workorder = orElse (getValue lines ''WORKORDER'') (findValue [re_workorder] text),
       serviceNo = orElse (getValue lines ''SERVICE NO'') (findValue [re_serviceNoField] text),
       customerName =
         orElse (getValue lines ''CUSTOMER NAME'') (findValue [re_customerName] text),
       owner = orElse (getValue lines ''OWNER'') (findValue [re_owner] text),
       workzone = orElse (getValue lines ''WORKZONE'') (findValue [re_workzone] text),
       snOnt = orElse (getValue lines ''SN ONT'') (findValue re_snOnt text),
       nikOnt = orElse (getValue lines ''NIK ONT'') (findValue [re_nikOnt] text),
       stbId = orElse (getValue lines ''STB ID'') (findValue [re_stbId] text),
       nikStb = orElse (getValue lines ''NIK STB'') (findValue [re_nikStb] text),
       teknisi = tek\<rparr>)"

text \<open>
  \<open>parseAktivasi(text, userRow)\<close>; \<open>username\<close> is the sender's name, a variable of the
  enclosing message handler.
\<close>

definition parseAktivasi :: "string \<Rightarrow> string \<Rightarrow> row \<Rightarrow> parsed" where
  "parseAktivasi username text userRow =
     (let tek = removeAt (orElse (cell userRow 1) username);
          own = detectOwner text
      in if own = ''TSEL'' then parseTSEL text tek
         else if own = ''BGES'' \<or> own = ''WMS'' then parseBGES text own tek
         else parseManual text tek)"

section \<open>Dates\<close>

text \<open>
  A JavaScript \<open>Date\<close> holds a time value, the milliseconds since the epoch in UTC, or
  \<open>NaN\<close> (an invalid date). Local time is the time value plus the offset \<open>tz\<close> of the
  zone in which the process runs, in milliseconds; the zone is taken to have a fixed
  offset (no daylight saving), as Asia/Jakarta and UTC have. The functions below are the
  abstract operations of ECMAScript (\<open>Day\<close>, \<open>TimeWithinDay\<close>, \<open>MakeDay\<close>, \<open>MakeTime\<close>,
  \<open>MakeDate\<close>, \<open>WeekDay\<close>) over the proleptic Gregorian calendar.
\<close>

datatype jsdate = Invalid | Time int

definition msPerDay :: int where
  "msPerDay = 86400000"

definition Day :: "int \<Rightarrow> int" where
  "Day t = t div msPerDay"

definition TimeWithinDay :: "int \<Rightarrow> int" where
  "TimeWithinDay t = t mod msPerDay"

definition WeekDay :: "int \<Rightarrow> int" where
  "WeekDay t = (Day t + 4) mod 7"

text \<open>The day number of a calendar date (month 1 to 12), and the calendar date
  (year, month 1 to 12, day of the month) of a day number.\<close>

definition daysFromCivil :: "int \<Rightarrow> int \<Rightarrow> int \<Rightarrow> int" where
  "daysFromCivil y m d =
     (let y' = (if m \<le> 2 then y - 1 else y);
          era = y' div 400;
          yoe = y' - era * 400;
          doy = (153 * (if m > 2 then m - 3 else m + 9) + 2) div 5 + d - 1;
          doe = yoe * 365 + yoe div 4 - yoe div 100 + doy
      in era * 146097 + doe - 719468)"

definition civilFromDays :: "int \<Rightarrow> int \<times> int \<times> int" where
  "civilFromDays z =
     (let z' = z + 719468;
          era = z' div 146097;
          doe = z' - era * 146097;
          yoe = (doe - doe div 1460 + doe div 36524 - doe div 146096) div 365;
          doy = doe - (365 * yoe + yoe div 4 - yoe div 100);
          mp = (5 * doy + 2) div 153;
          d = doy - (153 * mp + 2) div 5 + 1;
          m = (if mp < 10 then mp + 3 else mp - 9)
      in (if m \<le> 2 then yoe + era * 400 + 1 else yoe + era * 400, m, d))"

definition YearFromTime :: "int \<Rightarrow> int" where
  "YearFromTime t = fst (civilFromDays (Day t))"

definition MonthFromTime :: "int \<Rightarrow> int" where \<comment> \<open>0 is January\<close>
  "MonthFromTime t = fst (snd (civilFromDays (Day t))) - 1"

definition DateFromTime :: "int \<Rightarrow> int" where
  "DateFromTime t = snd (snd (civilFromDays (Day t)))"

definition MakeDay :: "int \<Rightarrow> int \<Rightarrow> int \<Rightarrow> int" where \<comment> \<open>month 0 is January\<close>
  "MakeDay year month date =
     daysFromCivil (year + month div 12) (month mod 12 + 1) 1 + date - 1"

definition MakeTime :: "int \<Rightarrow> int \<Rightarrow> int \<Rightarrow> int \<Rightarrow> int" where
  "MakeTime h m s ms = h * 3600000 + m * 60000 + s * 1000 + ms"

definition MakeDate :: "int \<Rightarrow> int \<Rightarrow> int" where
  "MakeDate day time = day * msPerDay + time"

definition LocalTime :: "int \<Rightarrow> int \<Rightarrow> int" where
  "LocalTime tz t = t + tz"

definition UTC :: "int \<Rightarrow> int \<Rightarrow> int" where
  "UTC tz t = t - tz"

text \<open>
  \<open>new Date(year, month, day)\<close>, \<open>d.setHours(h, m, s, ms)\<close>, \<open>d.setDate(n)\<close> and the
  getters, on time values. The years that reach \<open>new Date\<close> have at most four digits, so
  that no time value leaves the range of valid dates.
\<close>

definition newDate :: "int \<Rightarrow> int \<Rightarrow> int \<Rightarrow> int \<Rightarrow> int" where
  "newDate tz year month day =
     (let yr = (if 0 \<le> year \<and> year \<le> 99 then 1900 + year else year)
      in UTC tz (MakeDate (MakeDay yr month day) (MakeTime 0 0 0 0)))"

definition setHours :: "int \<Rightarrow> int \<Rightarrow> int \<Rightarrow> int \<Rightarrow> int \<Rightarrow> int \<Rightarrow> int" where
  "setHours tz t h m s ms = UTC tz (MakeDate (Day (LocalTime tz t)) (MakeTime h m s ms))"

definition setDate :: "int \<Rightarrow> int \<Rightarrow> int \<Rightarrow> int" where
  "setDate tz t n =
     (let l = LocalTime tz t
      in UTC tz (MakeDate (MakeDay (YearFromTime l) (MonthFromTime l) n) (TimeWithinDay l)))"

definition getDate :: "int \<Rightarrow> int \<Rightarrow> int" where
  "getDate tz t = DateFromTime (LocalTime tz t)"

definition getDay :: "int \<Rightarrow> int \<Rightarrow> int" where
  "getDay tz t = WeekDay (LocalTime tz t)"

definition getMonth :: "int \<Rightarrow> int \<Rightarrow> int" where
  "getMonth tz t = MonthFromTime (LocalTime tz t)"

definition getFullYear :: "int \<Rightarrow> int \<Rightarrow> int" where
  "getFullYear tz t = YearFromTime (LocalTime tz t)"

text \<open>\<open>parseInt\<close> on a string of decimal digits, and \<open>s.padStart(2, '0')\<close>.\<close>

definition digitVal :: "char \<Rightarrow> int" where
  "digitVal c = int (of_char c) - 48"

definition parseInt :: "string \<Rightarrow> int" where
  "parseInt s = foldl (\<lambda>a c. 10 * a + digitVal c) 0 s"

definition padStart2 :: "string \<Rightarrow> string" where
  "padStart2 s = replicate (2 - length s) (CHR ''0'') @ s"

text \<open>
  \<open>new Date(string)\<close>. A string of the form \<open>YYYY-MM-DD\<close> that names a day of the
  calendar is midnight UTC of that day. Every other string is handed to the parameter
  \<open>legacy\<close>: ECMAScript leaves to the implementation what a string outside its date
  format gives, and the stored dates produce none of the other forms of that format.
\<close>

definition daysInMonth :: "int \<Rightarrow> int \<Rightarrow> int" where
  "daysInMonth y m = daysFromCivil (if m = 12 then y + 1 else y) (if m = 12 then 1 else m + 1) 1
     - daysFromCivil y m 1"

definition isoDate :: "string \<Rightarrow> int option" where
  "isoDate s =
     (if length s = 10 \<and> list_all isDigit (take 4 s) \<and> s ! 4 = CHR ''-'' \<and>
         list_all isDigit (take 2 (drop 5 s)) \<and> s ! 7 = CHR ''-'' \<and>
         list_all isDigit (drop 8 s)
      then (let y = parseInt (take 4 s); m = parseInt (take 2 (drop 5 s));
                d = parseInt (drop 8 s)
            in if 1 \<le> m \<and> m \<le> 12 \<and> 1 \<le> d \<and> d \<le> daysInMonth y m
               then Some (MakeDate (MakeDay y (m - 1) d) 0) else None)
      else None)"

definition dateFromString :: "(string \<Rightarrow> jsdate) \<Rightarrow> string \<Rightarrow> jsdate" where
  "dateFromString legacy s = (case isoDate s of Some t \<Rightarrow> Time t | None \<Rightarrow> legacy s)"

text \<open>
  \<open>parseIndonesianDate\<close>. The table \<open>months\<close> is an object literal, so that besides its
  twelve keys a look-up finds the properties every object inherits; of their names only
  \<open>constructor\<close> and \<open>__proto__\<close> are in lower case, as the key is. Their values are
  truthy and are rendered into the date string as JavaScript prints them. The result
  \<open>None\<close> is \<open>null\<close>.
\<close>

definition months :: "string \<Rightarrow> string option" where
  "months k =
     map_of [(''januari'', ''01''), (''februari'', ''02''), (''maret'', ''03''),
             (''april'', ''04''), (''mei'', ''05''), (''juni'', ''06''), (''juli'', ''07''),
             (''agustus'', ''08''), (''september'', ''09''), (''oktober'', ''10''),
             (''november'', ''11''), (''desember'', ''12''),
             (''constructor'', ''function Object() { [native code] }''),
             (''__proto__'', ''[object Object]'')] k"

definition parseIndonesianDate :: "(string \<Rightarrow> jsdate) \<Rightarrow> string \<Rightarrow> jsdate option" where
  "parseIndonesianDate legacy dateStr =
     (let parts = split_on (CHR '' '') (toLowerCase dateStr) in
      if length parts \<ge> 4
      then (let day = padStart2 (parts ! 1); year = parts ! 3 in
            case months (parts ! 2) of
              Some month \<Rightarrow> Some (dateFromString legacy (year @ ''-'' @ month @ ''-'' @ day))
            | None \<Rightarrow> None)
      else None)"

section \<open>Period filter: \<open>filterDataByPeriod\<close>\<close>

text \<open>
  The window of \<open>filterDataByPeriod\<close>. \<open>now\<close> is the time value of \<open>new Date()\<close>. The
  anchor \<open>customDate\<close> is \<open>None\<close> for \<open>null\<close>; an empty string is falsy as \<open>null\<close> is. The
  variables \<open>startDate\<close> and \<open>endDate\<close> stay \<open>undefined\<close> (\<open>None\<close>) on the paths that do
  not assign them. \<open>AllRows\<close> is the early return of the \<open>default\<close> case.
\<close>

definition datePattern :: regex where \<comment> \<open>\<open>/(\d{1,2})[\/\-](\d{1,2})[\/\-](\d{4})/\<close>\<close>
  "datePattern =
     seqs [Grp 1 (Rep True 1 (Some 2) isDigit), Chr slashOrDash,
           Grp 2 (Rep True 1 (Some 2) isDigit), Chr slashOrDash, Grp 3 (exactly 4 isDigit)]"

datatype window = AllRows | Range "int option" "int option"

definition mondayOffset :: "int \<Rightarrow> int" where
  "mondayOffset dayOfWeek = (if dayOfWeek = 0 then - 6 else 1 - dayOfWeek)"

definition customWindow :: "int \<Rightarrow> string \<Rightarrow> int \<Rightarrow> window" where
  "customWindow tz period targetDate =
     (if period = ''daily'' then
        Range (Some targetDate) (Some (setHours tz targetDate 23 59 59 999))
      else if period = ''weekly'' then
        (let dayOfWeek = getDay tz targetDate;
             startDate = setHours tz
               (setDate tz targetDate (getDate tz targetDate + mondayOffset dayOfWeek)) 0 0 0 0;
             endDate = setHours tz (setDate tz startDate (getDate tz startDate + 6)) 23 59 59 999
         in Range (Some startDate) (Some endDate))
      else if period = ''monthly'' then
        (let startDate = newDate tz (getFullYear tz targetDate) (getMonth tz targetDate) 1;
             endDate = setHours tz
               (newDate tz (getFullYear tz targetDate) (getMonth tz targetDate + 1) 0)
               23 59 59 999
         in Range (Some startDate) (Some endDate))
      else Range None None)"

definition defaultWindow :: "int \<Rightarrow> string \<Rightarrow> int \<Rightarrow> window" where
  "defaultWindow tz period today =
     (if period = ''daily'' then Range (Some today) (Some (setHours tz today 23 59 59 999))
      else if period = ''weekly'' then
        (let dayOfWeek = getDay tz today;
             startDate = setDate tz today (getDate tz today + mondayOffset dayOfWeek);
             endDate = setHours tz (setDate tz startDate (getDate tz startDate + 6)) 23 59 59 999
         in Range (Some startDate) (Some endDate))
      else if period = ''monthly'' then
        (let startDate = newDate tz (getFullYear tz today) (getMonth tz today) 1;
             endDate = setHours tz
               (newDate tz (getFullYear tz today) (getMonth tz today + 1) 0) 23 59 59 999
         in Range (Some startDate) (Some endDate))
      else AllRows)"

definition periodWindow :: "int \<Rightarrow> int \<Rightarrow> string \<Rightarrow> string option \<Rightarrow> window" where
  "periodWindow tz now period customDate =
     (let today = setHours tz now 0 0 0 0 in
      case customDate of
        None \<Rightarrow> defaultWindow tz period today
      | Some cd \<Rightarrow>
          if cd = [] then defaultWindow tz period today
          else (case str_match cd datePattern of
                  None \<Rightarrow> Range None None
                | Some m \<Rightarrow>
                    (let day = parseInt (group m 1);
                         month = parseInt (group m 2) - 1;
                         year = parseInt (group m 3)
                     in customWindow tz period (newDate tz year month day))))"

text \<open>
  The comparison \<open>rowDate && rowDate >= startDate && rowDate <= endDate\<close>: \<open>null\<close> is
  falsy, and a comparison with \<open>NaN\<close> (an invalid date, \<open>undefined\<close>) is false.
\<close>

fun inWindow :: "jsdate option \<Rightarrow> int option \<Rightarrow> int option \<Rightarrow> bool" where
  "inWindow (Some (Time t)) (Some a) (Some b) = (a \<le> t \<and> t \<le> b)"
| "inWindow rowDate startDate endDate = False"

definition keepRow :: "(string \<Rightarrow> jsdate) \<Rightarrow> int option \<Rightarrow> int option \<Rightarrow> row \<Rightarrow> bool" where
  "keepRow legacy startDate endDate r =
     (let dateStr = cell r 0 in
      dateStr \<noteq> [] \<and> inWindow (parseIndonesianDate legacy dateStr) startDate endDate)"

definition filterDataByPeriod ::
    "(string \<Rightarrow> jsdate) \<Rightarrow> int \<Rightarrow> int \<Rightarrow> row list \<Rightarrow> string \<Rightarrow> string option \<Rightarrow> row list" where
  "filterDataByPeriod legacy tz now data period customDate =
     (case periodWindow tz now period customDate of
        AllRows \<Rightarrow> drop 1 data
      | Range startDate endDate \<Rightarrow> filter (keepRow legacy startDate endDate) (drop 1 data))"

section \<open>Aggregation\<close>

text \<open>
  The tallies \<open>teknisiMap\<close>, \<open>workzoneMap\<close> and \<open>ownerMap\<close> are plain objects used as
  maps from a key to a count. An object is modelled by the list of its own properties in
  the order of their creation. The keys are in upper case, so none of them is the name
  of a property that an object inherits, and \<open>m[k] || 0\<close> is the count of \<open>k\<close> or 0.
\<close>

type_synonym tally = "(string \<times> nat) list"

definition tallyAdd :: "tally \<Rightarrow> string \<Rightarrow> tally" where
  "tallyAdd m k =
     (case map_of m k of
        None \<Rightarrow> m @ [(k, 1)]
      | Some n \<Rightarrow> map (\<lambda>(k', c). if k' = k then (k', c + 1) else (k', c)) m)"

text \<open>
  \<open>Object.entries\<close> lists the keys that are array indices (the decimal numeral, without
  leading zero, of an integer below \<open>2^32 - 1\<close>) first, in ascending numeric order, and
  the other keys after them in the order of their creation.
\<close>

definition isArrayIndex :: "string \<Rightarrow> bool" where
  "isArrayIndex k =
     (k \<noteq> [] \<and> list_all isDigit k \<and> (k = ''0'' \<or> hd k \<noteq> CHR ''0'') \<and>
      parseInt k < 4294967295)"

definition entries :: "tally \<Rightarrow> tally" where
  "entries m =
     sort_key (\<lambda>(k, c). parseInt k) (filter (\<lambda>(k, c). isArrayIndex k) m) @
     filter (\<lambda>(k, c). \<not> isArrayIndex k) m"

text \<open>
  \<open>Object.entries(m).sort((a,b)=>b[1]-a[1])\<close>: the sort of an array is stable, as is
  the insertion sort \<open>sort_key\<close>.
\<close>

definition ranking :: "tally \<Rightarrow> tally" where
  "ranking m = sort_key (\<lambda>(k, c). - int c) (entries m)"

text \<open>The key of a row for the column \<open>col\<close>: \<open>(row[col] || '-').toUpperCase()\<close>.\<close>

definition groupKey :: "nat \<Rightarrow> row \<Rightarrow> string" where
  "groupKey col r = toUpperCase (orElse (cell r col) ''-'')"

definition tallyBy :: "nat \<Rightarrow> row list \<Rightarrow> tally" where
  "tallyBy col rows = foldl tallyAdd [] (map (groupKey col) rows)"

record aggregation =
  byTechnician :: tally
  byWorkZone :: tally
  byOwner :: tally

definition aggregate :: "row list \<Rightarrow> aggregation" where
  "aggregate filteredData =
     \<lparr>byTechnician = ranking (tallyBy 11 filteredData),
      byWorkZone = ranking (tallyBy 6 filteredData),
      byOwner = ranking (tallyBy 5 filteredData)\<rparr>"

section \<open>The store and the write path\<close>

text \<open>
  A sheet is the list of its rows as \<open>getSheetData\<close> returns them, the header first.
  \<open>appendSheetData\<close> adds a row after the last one. \<open>updateSheetData\<close> with the range
  \<open>A1:L<n>\<close> writes the cells it is given into the first \<open>n\<close> rows and the columns A to
  L, and no other cell; the store refuses values that do not fit into the range.
\<close>

definition appendSheetData :: "row list \<Rightarrow> row \<Rightarrow> row list" where
  "appendSheetData sheet r = sheet @ [r]"

fun writeRows :: "row list \<Rightarrow> row list \<Rightarrow> row list" where
  "writeRows sheet [] = sheet"
| "writeRows [] (v # vs) = v # writeRows [] vs"
| "writeRows (r # rs) (v # vs) = (v @ drop (length v) r) # writeRows rs vs"

definition updateSheetData :: "row list \<Rightarrow> nat \<Rightarrow> row list \<Rightarrow> row list option" where
  "updateSheetData sheet n vs =
     (if length vs \<le> n \<and> list_all (\<lambda>v. length v \<le> 12) vs then Some (writeRows sheet vs)
      else None)"

text \<open>\<open>getUserData\<close>: the first row of the user sheet, after its header, with the
  sender's name and the status \<open>AKTIF\<close>.\<close>

definition getUserData :: "row list \<Rightarrow> string \<Rightarrow> row option" where
  "getUserData users username =
     find (\<lambda>r. toLowerCase (removeAt (cell r 1)) = toLowerCase (removeAt username) \<and>
                toUpperCase (cell r 3) = ''AKTIF'')
       (drop 1 users)"

text \<open>The loop of the duplicate check, which leaves at the first hit.\<close>

fun duplicateLoop :: "row list \<Rightarrow> string \<Rightarrow> bool" where
  "duplicateLoop [] a = False"
| "duplicateLoop (r # rs) a =
     (if trim (toUpperCase (cell r 1)) = trim (toUpperCase a) then True
      else duplicateLoop rs a)"

definition isDuplicate :: "string \<Rightarrow> row list \<Rightarrow> bool" where
  "isDuplicate a data = duplicateLoop (drop 1 data) a"

datatype reply =
    NotRegistered
  | EmptyInput
  | Incomplete "string list"
  | DuplicateAO
  | Saved
  | AlreadyClean
  | Cleaned nat
  | SystemError

text \<open>
  The branch \<open>/aktivasi\<close> of the message handler. \<open>text\<close> is the trimmed text of the
  message, which starts with the command; \<open>tanggal\<close> is the date string of the day,
  \<open>getTodayDateString()\<close>. The result is the reply and the sheet after the request.
\<close>

definition stripCommand :: "string \<Rightarrow> string" where \<comment> \<open>\<open>text.replace(/^\/aktivasi\s*/i, '')\<close>\<close>
  "stripCommand text =
     (case rmatch (Seq (lit_i ''/aktivasi'') (star isSpace)) (None, text, Map.empty) of
        [] \<Rightarrow> text
      | (p, rest, c) # _ \<Rightarrow> rest)"

definition sheetRow :: "string \<Rightarrow> parsed \<Rightarrow> row" where
  "sheetRow tanggal p =
     [tanggal, ao p, workorder p, serviceNo p, customerName p, owner p, workzone p,
      snOnt p, nikOnt p, stbId p, nikStb p, teknisi p]"

definition aktivasi :: "row list \<Rightarrow> row list \<Rightarrow> string \<Rightarrow> string \<Rightarrow> string \<Rightarrow> reply \<times> row list" where
  "aktivasi users data tanggal username text =
     (case getUserData users username of
        None \<Rightarrow> (NotRegistered, data)
      | Some user \<Rightarrow>
          (let inputText = trim (stripCommand text) in
           if inputText = [] then (EmptyInput, data)
           else (let p = parseAktivasi username inputText user;
                     missing = (if ao p = [] then [''AO''] else [])
                 in if missing \<noteq> [] then (Incomplete missing, data)
                    else if isDuplicate (ao p) data then (DuplicateAO, data)
                    else (Saved, appendSheetData data (sheetRow tanggal p)))))"

text \<open>The branch \<open>/clear\<close>, for a sender who is an administrator.\<close>

fun uniqueLoop :: "row list \<Rightarrow> string set \<Rightarrow> row list \<Rightarrow> nat \<Rightarrow> row list \<times> nat" where
  "uniqueLoop [] seen uniqueData duplicateCount = (uniqueData, duplicateCount)"
| "uniqueLoop (r # rs) seen uniqueData duplicateCount =
     (let a = trim (toUpperCase (cell r 1)) in
      if a \<notin> seen \<and> a \<noteq> []
      then uniqueLoop rs (insert a seen) (uniqueData @ [r]) duplicateCount
      else uniqueLoop rs seen uniqueData (Suc duplicateCount))"

definition clear :: "row list \<Rightarrow> reply \<times> row list" where
  "clear data =
     (if length data \<le> 1 then (AlreadyClean, data)
      else (case uniqueLoop (drop 1 data) {} [data ! 0] 0 of
              (uniqueData, duplicateCount) \<Rightarrow>
                if duplicateCount = 0 then (AlreadyClean, data)
                else (case updateSheetData data (length uniqueData) uniqueData of
                        None \<Rightarrow> (SystemError, data)
                      | Some data' \<Rightarrow> (Cleaned duplicateCount, data'))))"

section \<open>The earlier handler\<close>

text \<open>
  The earlier version of the bot (src/unnamed/part_000) reads every field of the row,
  the technician too, from the text: \<open>getField(label, fallbackPattern)\<close> takes the
  labelled line, or else the first line that matches the pattern, compiled with the
  \<open>i\<close> flag. \<open>legacyPattern l P\<close> is \<open>/l[ :|]+(P+)/i\<close>.
\<close>

definition spaceColonBar :: "char \<Rightarrow> bool" where \<comment> \<open>\<open>[ :|]\<close>\<close>
  "spaceColonBar c = (c = CHR '' '' \<or> c = CHR '':'' \<or> c = CHR ''|'')"

definition legacyPattern :: "string \<Rightarrow> (char \<Rightarrow> bool) \<Rightarrow> regex" where
  "legacyPattern l P = seqs [lit_i l, plus1 spaceColonBar, Grp 1 (plus1 P)]"

definition re_legacy_teknisi :: regex where \<comment> \<open>\<open>/TEKNISI[ :|]+(.+)/\<close>, with \<open>i\<close>\<close>
  "re_legacy_teknisi = legacyPattern ''TEKNISI'' dot"

definition findByPattern :: "string list \<Rightarrow> regex \<Rightarrow> string" where
  "findByPattern lines r =
     (case find (\<lambda>l. str_match l r \<noteq> None) lines of
        None \<Rightarrow> []
      | Some line \<Rightarrow> (case str_match line r of None \<Rightarrow> [] | Some m \<Rightarrow> trim (group m 1)))"

definition getField :: "string list \<Rightarrow> string \<Rightarrow> regex \<Rightarrow> string" where
  "getField lines label fallbackPattern =
     (let val = getValue lines label in
      if val = [] then findByPattern lines fallbackPattern else val)"

definition legacyTeknisi :: "string \<Rightarrow> string" where
  "legacyTeknisi inputText = getField (textLines inputText) ''TEKNISI'' re_legacy_teknisi"

text \<open>
  The owner of the earlier handler: the labelled line, else what follows the first
  \<open>OWNER\<close> (in capitals, up to the next one) in the first line that matches
  \<open>/OWNER\s+\w+/i\<close>, else a keyword of the text. \<open>ownerLine.split('OWNER')[1]\<close> is
  \<open>undefined\<close> when the line has no \<open>OWNER\<close> in capitals, and \<open>trim\<close> on it throws:
  that is the result \<open>None\<close>.
\<close>

fun afterFirst :: "string \<Rightarrow> string \<Rightarrow> string option" where
  "afterFirst sep [] = None"
| "afterFirst sep (x # xs) =
     (if startsWith (x # xs) sep then Some (drop (length sep) (x # xs))
      else afterFirst sep xs)"

fun beforeFirst :: "string \<Rightarrow> string \<Rightarrow> string" where
  "beforeFirst sep [] = []"
| "beforeFirst sep (x # xs) =
     (if startsWith (x # xs) sep then [] else x # beforeFirst sep xs)"

definition re_ownerLine :: regex where \<comment> \<open>\<open>/OWNER\s+\w+/i\<close>\<close>
  "re_ownerLine = seqs [lit_i ''OWNER'', plus1 isSpace, plus1 isWordChar]"

definition legacyOwner :: "string \<Rightarrow> string list \<Rightarrow> string option" where
  "legacyOwner inputText lines =
     (let owner = getValue lines ''OWNER'' in
      if owner \<noteq> [] then Some owner
      else (case find (\<lambda>l. str_match l re_ownerLine \<noteq> None) lines of
              Some ownerLine \<Rightarrow>
                map_option (\<lambda>rest. trim (beforeFirst ''OWNER'' rest))
                  (afterFirst ''OWNER'' ownerLine)
            | None \<Rightarrow>
                if str_includes (toUpperCase inputText) ''BGES'' then Some ''BGES''
                else if str_includes (toUpperCase inputText) ''WMS'' then Some ''WMS''
                else if str_includes (toUpperCase inputText) ''TSEL'' then Some ''TSEL''
                else Some []))"

text \<open>
  The branch \<open>/aktivasi\<close> of the earlier handler. An exception is caught by the handler,
  which answers with the system error and appends nothing. There is no check for
  duplicates.
\<close>

definition legacyAktivasi ::
    "row list \<Rightarrow> row list \<Rightarrow> string \<Rightarrow> string \<Rightarrow> string \<Rightarrow> reply \<times> row list" where
  "legacyAktivasi users data tanggal username text =
     (case getUserData users username of
        None \<Rightarrow> (NotRegistered, data)
      | Some user \<Rightarrow>
          (let inputText = trim (stripCommand text) in
           if inputText = [] then (EmptyInput, data)
           else (let lines = textLines inputText in
                 case legacyOwner inputText lines of
                   None \<Rightarrow> (SystemError, data)
                 | Some own \<Rightarrow>
                     (let ao = getField lines ''AO'' (legacyPattern ''AO'' (ci upperOrDigit));
                          workorder = getField lines ''WORKORDER''
                            (legacyPattern ''WORKORDER'' (ci upperOrDigit));
                          serviceNo = getField lines ''SERVICE NO''
                            (legacyPattern ''SERVICE NO'' isDigit);
                          customerName = getField lines ''CUSTOMER NAME''
                            (legacyPattern ''CUSTOMER NAME'' dot);
                          workzone = getField lines ''WORKZONE''
                            (legacyPattern ''WORKZONE'' (ci upperOrDigit));
                          snOnt = getField lines ''SN ONT''
                            (legacyPattern ''SN ONT'' (ci upperOrDigit));
                          nikOnt = getField lines ''NIK ONT'' (legacyPattern ''NIK ONT'' isDigit);
                          stbId = getField lines ''STB ID''
                            (legacyPattern ''STB ID'' (ci upperOrDigit));
                          nikStb = getField lines ''NIK STB'' (legacyPattern ''NIK STB'' isDigit);
                          teknisi = getField lines ''TEKNISI'' re_legacy_teknisi
                      in if snOnt = [] \<or> nikOnt = []
                         then (Incomplete [''SN ONT'', ''NIK ONT''], data)
                         else (Saved, appendSheetData data
                                 [tanggal, ao, workorder, serviceNo, customerName, own,
                                  workzone, snOnt, nikOnt, stbId, nikStb, teknisi])))))"

section \<open>The comparison of reference numbers, as the specification words it\<close>

text \<open>Two reference numbers are the same when they are equal after the white space
  around them is removed and the case of their letters is ignored.\<close>

definition eqTrimCI :: "string \<Rightarrow> string \<Rightarrow> bool" where
  "eqTrimCI x y = (toUpperCase (trim x) = toUpperCase (trim y))"

section \<open>Sample data\<close>

definition sampleUsers :: "row list" where
  "sampleUsers =
     [[''NO'', ''USERNAME'', ''ROLE'', ''STATUS''],
      [''1'', ''@budi'', ''USER'', ''Aktif'']]"

definition sampleData :: "row list" where
  "sampleData =
     [[''TANGGAL'', ''AO'', ''WORKORDER''],
      [''Senin, 1 September 2025'', ''SC123456 '', ''SC123456'']]"

definition dupData :: "row list" where
  "dupData =
     [[''TANGGAL'', ''AO'', ''WORKORDER''],
      [''Senin, 1 September 2025'', ''SC111111'', ''SC111111''],
      [''Senin, 1 September 2025'', ''sc111111 '', ''SC111111''],
      [''Selasa, 2 September 2025'', ''SC222222'', ''SC222222'']]"

section \<open>The order of first encounter, as the specification words it\<close>

text \<open>The distinct keys of a list in the order in which they first occur.\<close>

fun encounterOrder :: "string list \<Rightarrow> string list" where
  "encounterOrder [] = []"
| "encounterOrder (k # ks) = k # removeAll k (encounterOrder ks)"

text \<open>Rows whose technician (column 11) is the given name.\<close>

definition techRow :: "string \<Rightarrow> row" where
  "techRow t = replicate 11 [] @ [t]"

definition rankRows :: "row list" where
  "rankRows =
     map techRow [''b'', ''c'', ''a'', ''B'', ''C'', ''A'', ''b'', ''c'', ''a'', ''b'', ''c'',
                  ''b'', ''c'']"

section \<open>Calendar times, to state the windows\<close>

text \<open>
  \<open>atLocal tz (y, m, d, h, mi, s, ms)\<close> is the time value of the local calendar time
  \<open>y-m-d h:mi:s.ms\<close> (month 1 to 12) in the zone with offset \<open>tz\<close>, and \<open>localFields\<close>
  reads the local calendar time of a time value. \<open>shiftWindow\<close> moves a window of
  local time stamps into a zone.
\<close>

type_synonym stamp = "int \<times> int \<times> int \<times> int \<times> int \<times> int \<times> int"

fun atLocal :: "int \<Rightarrow> stamp \<Rightarrow> int" where
  "atLocal tz (y, m, d, h, mi, s, ms) =
     UTC tz (MakeDate (daysFromCivil y m d) (MakeTime h mi s ms))"

definition HourFromTime :: "int \<Rightarrow> int" where
  "HourFromTime t = (t div 3600000) mod 24"

definition MinFromTime :: "int \<Rightarrow> int" where
  "MinFromTime t = (t div 60000) mod 60"

definition SecFromTime :: "int \<Rightarrow> int" where
  "SecFromTime t = (t div 1000) mod 60"

definition msFromTime :: "int \<Rightarrow> int" where
  "msFromTime t = t mod 1000"

definition localFields :: "int \<Rightarrow> int \<Rightarrow> stamp" where
  "localFields tz t =
     (let l = LocalTime tz t in
      (YearFromTime l, MonthFromTime l + 1, DateFromTime l, HourFromTime l, MinFromTime l,
       SecFromTime l, msFromTime l))"

fun shiftWindow :: "int \<Rightarrow> window \<Rightarrow> window" where
  "shiftWindow tz AllRows = AllRows"
| "shiftWindow tz (Range a b) = Range (map_option (UTC tz) a) (map_option (UTC tz) b)"

text \<open>The offset of Asia/Jakarta, seven hours, and a moment of 15 September 2025
  (16:53:20 in Jakarta).\<close>

definition jakarta :: int where
  "jakarta = 25200000"

definition sampleNow :: int where
  "sampleNow = 1757930000000"

text \<open>An engine whose fallback parser accepts no date string, and sheets with dates.\<close>

definition noLegacy :: "string \<Rightarrow> jsdate" where
  "noLegacy s = Invalid"

definition dateData :: "row list" where
  "dateData =
     [[''TANGGAL'', ''AO''],
      [''Senin, 15 September 2025'', ''SC111111''],
      [''Minggu, 14 September 2025'', ''SC222222'']]"

definition oddData :: "row list" where
  "oddData =
     [[''TANGGAL'', ''AO''],
      [''Xyz, 15 September 2025'', ''SC333333''],
      [''Senin, 15 Septembre 2025'', ''SC444444''],
      [''15 September 2025'', ''SC555555'']]"

text \<open>A request in the format of the earlier handler that names a technician.\<close>

definition legacyText :: string where
  "legacyText =
     ''SN ONT : ZTEG12345678'' @ [CHR 0x0A] @ ''NIK ONT : 987654321'' @ [CHR 0x0A] @
     ''TEKNISI : @orang_lain''"

section \<open>The strings a regular expression matches\<close>

text \<open>
  The set of the strings that an expression can consume, without regard to the order
  in which the matcher tries them, and the expressions without a word boundary.
\<close>

fun lang :: "regex \<Rightarrow> string set" where
  "lang (Chr P) = {[x] |x. P x}"
| "lang (Rep greedy lo hi P) =
     {v. list_all P v \<and> lo \<le> length v \<and> (case hi of None \<Rightarrow> True | Some h \<Rightarrow> length v \<le> h)}"
| "lang (Seq a b) = {u @ v |u v. u \<in> lang a \<and> v \<in> lang b}"
| "lang (Grp i r) = lang r"
| "lang WordB = {[]}"
| "lang Eps = {[]}"

fun noWordB :: "regex \<Rightarrow> bool" where
  "noWordB (Seq a b) = (noWordB a \<and> noWordB b)"
| "noWordB (Grp i r) = noWordB r"
| "noWordB WordB = False"
| "noWordB r = True"

text \<open>Requests in the TSEL format, without and with a work order, and the four fields
  alone, and a request in the BGES format with two order lines.\<close>

definition tselText :: string where
  "tselText =
     ''CHANNEL : DIGIPOS'' @ [CHR 0x0A] @ ''AO : SC000111'' @ [CHR 0x0A] @
     ''SERVICE NO : 12345678901'' @ [CHR 0x0A] @ ''SN ONT : ZTEGDA00001'' @ [CHR 0x0A] @
     ''NIK ONT : 111222333''"

definition tselTextWO :: string where
  "tselTextWO = ''WORKORDER : WO0042'' @ [CHR 0x0A] @ tselText"


definition bgesText :: string where
  "bgesText =
     ''01/09/2025 10:30 1 BUDI SANTOSO  INDIBIZ'' @ [CHR 0x0A] @
     ''AO| MEDAN 1-ABC SC123456789'' @ [CHR 0x0A] @
     ''AO| MEDAN 1-ABC SC987654321 152401234567''"

section \<open>Facts about strings\<close>

lemma startsWith_prefix: "startsWith s m = prefix m s"
  by (induction s m rule: startsWith.induct) auto

lemma includes_sublist: "str_includes s m = sublist m s"
proof (induction s)
  case Nil
  then show ?case by auto
next
  case (Cons c cs)
  then show ?case
    by (simp only: str_includes.simps startsWith_prefix sublist_Cons_right)
qed

lemma toUpperCase_append: "toUpperCase (a @ b) = toUpperCase a @ toUpperCase b"
  by (simp add: toUpperCase_def)

lemma toUpperCase_map: "CHR 0xDF \<notin> set s \<Longrightarrow> toUpperCase s = map toUpperChar s"
  by (induction s) (auto simp: toUpperCase_def upperString_def)

text \<open>In a text without the sharp s the upper case form is taken character by
  character, and a marker is contained without regard to case exactly when a piece of
  the text has the upper case form of the marker.\<close>

lemma sublist_map_pieces:
  "sublist m (map f xs) = (\<exists>piece. sublist piece xs \<and> map f piece = m)"
proof
  assume "sublist m (map f xs)"
  then obtain ps ss where "map f xs = ps @ m @ ss"
    by (auto simp: sublist_def)
  then obtain a r where 1: "xs = a @ r" "map f a = ps" "map f r = m @ ss"
    by (metis append_eq_map_conv)
  then obtain p q where 2: "r = p @ q" "map f p = m" "map f q = ss"
    by (metis append_eq_map_conv)
  have "sublist p xs" using 1 2 by (auto simp: sublist_def)
  with 2 show "\<exists>piece. sublist piece xs \<and> map f piece = m" by blast
next
  assume "\<exists>piece. sublist piece xs \<and> map f piece = m"
  then obtain piece ps ss where "xs = ps @ piece @ ss" "map f piece = m"
    by (auto simp: sublist_def)
  then have "map f xs = map f ps @ m @ map f ss" by simp
  then show "sublist m (map f xs)"
    by (auto simp: sublist_def)
qed

lemma containsCI_pieces:
  assumes "CHR 0xDF \<notin> set text"
  shows "containsCI text marker =
    (\<exists>piece. sublist piece text \<and> toUpperCase piece = toUpperCase marker)"
proof -
  have "toUpperCase piece = map toUpperChar piece" if "sublist piece text" for piece
    using that assms set_mono_sublist [of piece "text"] by (intro toUpperCase_map) auto
  then show ?thesis
    unfolding containsCI_def toUpperCase_map [OF assms] sublist_map_pieces by metis
qed

section \<open>The format classifier\<close>

lemma markers_upper:
  "toUpperCase ''CHANNEL : DIGIPOS'' = ''CHANNEL : DIGIPOS''"
  "toUpperCase ''DATE CREATED'' = ''DATE CREATED''"
  "toUpperCase ''WORKORDER : WO'' = ''WORKORDER : WO''"
  "toUpperCase ''INDIBIZ'' = ''INDIBIZ''"
  "toUpperCase ''HSI'' = ''HSI''"
  "toUpperCase ''WMS'' = ''WMS''"
  "toUpperCase ''MWS'' = ''MWS''"
  by code_simp+

text \<open>
  C1, as the code has it. For every text the classifier returns one of the four tags,
  chosen by the first rule that applies: TSEL when the text contains \<open>CHANNEL : DIGIPOS\<close>,
  \<open>DATE CREATED\<close> or \<open>WORKORDER : WO\<close>, else BGES when it contains \<open>INDIBIZ\<close> or \<open>HSI\<close>,
  else WMS when it contains \<open>WMS\<close> or \<open>MWS\<close>, else the fallback tag (the empty string);
  and every one of the seven markers is looked for without regard to case, in the upper
  case form of the text. In a text without the sharp s that is: some piece of the text
  has the upper case form of the marker.
\<close>

theorem detectOwner_first_match:
  "detectOwner text = classify text \<and>
   detectOwner text \<in> {''TSEL'', ''BGES'', ''WMS'', ''''} \<and>
   (CHR 0xDF \<notin> set text \<longrightarrow>
      (\<forall>marker. containsCI text marker =
         (\<exists>piece. sublist piece text \<and> toUpperCase piece = toUpperCase marker)))"
proof -
  have "detectOwner text = classify text"
    unfolding detectOwner_def classify_def Let_def containsCI_def
    by (simp only: includes_sublist markers_upper)
  moreover have "detectOwner text \<in> {''TSEL'', ''BGES'', ''WMS'', ''''}"
    unfolding detectOwner_def Let_def by simp
  ultimately show ?thesis using containsCI_pieces by blast
qed

text \<open>The markers in lower case and the order of the rules, on sample texts.\<close>

lemma detectOwner_samples:
  "detectOwner ''Channel : Digipos, paket hsi'' = ''TSEL''"
  "detectOwner ''date created 01/09/2025 wms'' = ''TSEL''"
  "detectOwner ''paket hsi 50 mbps, wms'' = ''BGES''"
  "detectOwner ''Indibiz'' = ''BGES''"
  "detectOwner ''order mws'' = ''WMS''"
  "detectOwner ''AO : SC123456'' = ''''"
  "detectOwner [CHR ''w'', CHR ''m'', CHR 0xDF] = ''WMS''"
  by code_simp+

theorem detectOwner_first_match_witness:
  "detectOwner ''paket hsi 50 mbps, wms'' = ''BGES'' \<and>
   containsCI ''paket hsi 50 mbps, wms'' ''HSI'' \<and>
   (\<exists>piece. sublist piece ''paket hsi 50 mbps, wms'' \<and>
      toUpperCase piece = toUpperCase ''HSI'')"
proof -
  have 1: "CHR 0xDF \<notin> set ''paket hsi 50 mbps, wms''" by code_simp
  have 2: "str_includes (toUpperCase ''paket hsi 50 mbps, wms'') (toUpperCase ''HSI'')"
    by code_simp
  have 3: "detectOwner ''paket hsi 50 mbps, wms'' = ''BGES''" by code_simp
  from 2 have 4: "containsCI ''paket hsi 50 mbps, wms'' ''HSI''"
    by (simp only: containsCI_def includes_sublist)
  from detectOwner_first_match [of "''paket hsi 50 mbps, wms''"] 1 4
  have "\<exists>piece. sublist piece ''paket hsi 50 mbps, wms'' \<and>
      toUpperCase piece = toUpperCase ''HSI''"
    by blast
  with 3 4 show ?thesis by blast
qed

text \<open>
  The claim as the specification states it marks only the three markers of TSEL as
  free of case. The text \<open>paket hsi\<close> has \<open>hsi\<close> in lower case: the stated rules give
  the fallback tag, and the code gives BGES.
\<close>

theorem stated_case_counterexample:
  "classifyStated ''paket hsi'' = '''' \<and> detectOwner ''paket hsi'' = ''BGES''"
proof -
  have a: "\<not> str_includes (toUpperCase ''paket hsi'') (toUpperCase ''CHANNEL : DIGIPOS'')"
    "\<not> str_includes (toUpperCase ''paket hsi'') (toUpperCase ''DATE CREATED'')"
    "\<not> str_includes (toUpperCase ''paket hsi'') (toUpperCase ''WORKORDER : WO'')"
    "\<not> str_includes ''paket hsi'' ''INDIBIZ''" "\<not> str_includes ''paket hsi'' ''HSI''"
    "\<not> str_includes ''paket hsi'' ''WMS''" "\<not> str_includes ''paket hsi'' ''MWS''"
    by code_simp+
  have "classifyStated ''paket hsi'' = ''''"
    using a unfolding classifyStated_def containsCI_def includes_sublist by simp
  moreover have "detectOwner ''paket hsi'' = ''BGES''" by code_simp
  ultimately show ?thesis by simp
qed

section \<open>The duplicate check\<close>

lemma isSpace_toUpperChar: "isSpace (toUpperChar c) = isSpace c"
  by (auto simp: isSpace_def toUpperChar_def isLower_def isLatinLower_def)


lemma upperString_space: "isSpace c \<Longrightarrow> upperString c = [c]"
  by (auto simp: upperString_def toUpperChar_def isSpace_def isLower_def isLatinLower_def)

lemma upperString_no_space:
  "\<not> isSpace c \<Longrightarrow> \<exists>x xs. upperString c = x # xs \<and> \<not> isSpace x"
proof (cases "c = CHR 0xDF")
  case True
  have "\<not> isSpace (CHR ''S'')" by (simp add: isSpace_def)
  with True show ?thesis by (simp add: upperString_def)
next
  case False
  assume "\<not> isSpace c"
  with False show ?thesis by (simp add: upperString_def isSpace_toUpperChar)
qed

lemma dropWhile_toUpperCase:
  "dropWhile isSpace (toUpperCase s) = toUpperCase (dropWhile isSpace s)"
proof (induction s)
  case Nil
  then show ?case by (simp add: toUpperCase_def)
next
  case (Cons c s)
  show ?case
  proof (cases "isSpace c")
    case True
    with Cons show ?thesis by (simp add: toUpperCase_def upperString_space)
  next
    case False
    from upperString_no_space [OF this] obtain x xs
      where "upperString c = x # xs" "\<not> isSpace x" by blast
    with False show ?thesis by (simp add: toUpperCase_def)
  qed
qed

lemma rev_upperString: "rev (upperString c) = upperString c"
  by (simp add: upperString_def)

lemma rev_toUpperCase: "rev (toUpperCase s) = toUpperCase (rev s)"
  by (induction s) (simp_all add: toUpperCase_def rev_upperString)

lemma trim_toUpperCase: "trim (toUpperCase s) = toUpperCase (trim s)"
  by (simp add: trim_def dropWhile_toUpperCase rev_toUpperCase)

lemma duplicateLoop_iff:
  "duplicateLoop rs a = (\<exists>r\<in>set rs. trim (toUpperCase (cell r 1)) = trim (toUpperCase a))"
  by (induction rs) auto

lemma isDuplicate_iff:
  "isDuplicate a data = (\<exists>r\<in>set (drop 1 data). eqTrimCI (cell r 1) a)"
  by (simp add: isDuplicate_def duplicateLoop_iff eqTrimCI_def trim_toUpperCase)

text \<open>
  C4. The duplicate check reports a duplicate exactly when the candidate reference
  number equals the reference number (second cell) of some row after the header, the
  white space around both removed and the case of the letters ignored. So a request of
  a registered sender whose reference number is such a variant of a stored one is
  answered as a duplicate, and the sheet stays as it was.
\<close>

theorem duplicate_check:
  "(isDuplicate a data \<longleftrightarrow> (\<exists>r\<in>set (drop 1 data). eqTrimCI (cell r 1) a)) \<and>
   (getUserData users username = Some user \<and> trim (stripCommand text) \<noteq> [] \<and>
    ao (parseAktivasi username (trim (stripCommand text)) user) \<noteq> [] \<and>
    (\<exists>r\<in>set (drop 1 data).
       eqTrimCI (cell r 1) (ao (parseAktivasi username (trim (stripCommand text)) user)))
    \<longrightarrow> aktivasi users data tanggal username text = (DuplicateAO, data))"
proof (intro conjI impI)
  show "isDuplicate a data \<longleftrightarrow> (\<exists>r\<in>set (drop 1 data). eqTrimCI (cell r 1) a)"
    by (rule isDuplicate_iff)
next
  let ?p = "parseAktivasi username (trim (stripCommand text)) user"
  assume h: "getUserData users username = Some user \<and> trim (stripCommand text) \<noteq> [] \<and>
    ao ?p \<noteq> [] \<and> (\<exists>r\<in>set (drop 1 data). eqTrimCI (cell r 1) (ao ?p))"
  then have "isDuplicate (ao ?p) data"
    by (simp only: isDuplicate_iff)
  with h show "aktivasi users data tanggal username text = (DuplicateAO, data)"
    by (simp add: aktivasi_def Let_def)
qed

text \<open>The stored \<open>SC123456\<close> with a space after it, and the request \<open>sc123456\<close>.\<close>

theorem duplicate_check_witness:
  "isDuplicate ''sc123456'' sampleData \<and>
   aktivasi sampleUsers sampleData ''Senin, 15 September 2025'' ''Budi''
     ''/aktivasi AO : sc123456'' = (DuplicateAO, sampleData)"
proof -
  have 1: "\<exists>r\<in>set (drop 1 sampleData). eqTrimCI (cell r 1) ''sc123456''"
    by code_simp
  have 2: "getUserData sampleUsers ''Budi'' = Some [''1'', ''@budi'', ''USER'', ''Aktif'']"
    by code_simp
  have 3: "trim (stripCommand ''/aktivasi AO : sc123456'') = ''AO : sc123456''"
    by code_simp
  have 4: "ao (parseAktivasi ''Budi'' ''AO : sc123456'' [''1'', ''@budi'', ''USER'', ''Aktif''])
    = ''sc123456''"
    by code_simp
  have "isDuplicate ''sc123456'' sampleData"
    using duplicate_check [of "''sc123456''" sampleData] 1 by blast
  moreover have "aktivasi sampleUsers sampleData ''Senin, 15 September 2025'' ''Budi''
     ''/aktivasi AO : sc123456'' = (DuplicateAO, sampleData)"
    using duplicate_check [of _ sampleData sampleUsers "''Budi''"
        "[''1'', ''@budi'', ''USER'', ''Aktif'']" "''/aktivasi AO : sc123456''"] 1 2 3 4
    by simp
  ultimately show ?thesis by simp
qed

text \<open>A request with a reference number that is not stored appends one row.\<close>

lemma aktivasi_saved_sample:
  "aktivasi sampleUsers sampleData ''Senin, 15 September 2025'' ''Budi''
     ''/aktivasi AO : sc123457'' =
   (Saved, sampleData @
      [[''Senin, 15 September 2025'', ''sc123457'', [], [], [], [], [], [], [], [], [],
        ''budi'']])"
  by code_simp

text \<open>A stored reference number that ends in a no-break space is the same number.\<close>

lemma duplicate_nbsp_sample:
  "isDuplicate ''sc123456''
     [[''TANGGAL'', ''AO''], [''Senin, 1 September 2025'', ''SC123456'' @ [CHR 0xA0]]]"
  by code_simp

section \<open>The clean-up of duplicates\<close>

lemma uniqueLoop_acc:
  "uniqueLoop rs seen u d = (u', d') \<Longrightarrow>
   length u' + d' = length u + d + length rs \<and> set u' \<subseteq> set u \<union> set rs \<and> d \<le> d'"
proof (induction rs arbitrary: seen u d)
  case Nil
  then show ?case by simp
next
  case (Cons r rs)
  let ?a = "trim (toUpperCase (cell r 1))"
  show ?case
  proof (cases "?a \<notin> seen \<and> ?a \<noteq> []")
    case True
    with Cons.prems have "uniqueLoop rs (insert ?a seen) (u @ [r]) d = (u', d')"
      by (simp add: Let_def)
    from Cons.IH [OF this] show ?thesis by auto
  next
    case False
    with Cons.prems have "uniqueLoop rs seen u (Suc d) = (u', d')"
      by (auto simp add: Let_def)
    from Cons.IH [OF this] show ?thesis by auto
  qed
qed

lemma length_writeRows:
  "length vs \<le> length sheet \<Longrightarrow> length (writeRows sheet vs) = length sheet"
  by (induction sheet vs rule: writeRows.induct) auto

lemma writeRows_nth_frame:
  "length vs \<le> i \<Longrightarrow> i < length sheet \<Longrightarrow> writeRows sheet vs ! i = sheet ! i"
proof (induction sheet vs arbitrary: i rule: writeRows.induct)
  case (3 r rs v vs)
  then show ?case by (cases i) auto
qed auto

lemma writeRows_nth_written:
  "i < length vs \<Longrightarrow> length vs \<le> length sheet \<Longrightarrow>
   writeRows sheet vs ! i = vs ! i @ drop (length (vs ! i)) (sheet ! i)"
proof (induction sheet vs arbitrary: i rule: writeRows.induct)
  case (3 r rs v vs)
  then show ?case by (cases i) auto
qed auto

text \<open>
  C10. Let the sheet have a header and \<open>n\<close> rows, of which \<open>k < n\<close> survive the
  clean-up (\<open>uniqueData\<close> is the header and the \<open>k\<close> survivors, \<open>duplicateCount = n - k\<close>).
  The clean-up writes the header and the survivors into the first \<open>k + 1\<close> rows and
  writes no other row: the sheet keeps its length, and every row after the first
  \<open>k + 1\<close> keeps its content. Within a written row the cells of the survivor replace
  the cells at their places. When a row is wider than the range \<open>A:L\<close> the store
  refuses the update and the sheet stays as it was.
\<close>

theorem clear_frame:
  assumes "1 < length data"
    and "uniqueLoop (drop 1 data) {} [data ! 0] 0 = (uniqueData, duplicateCount)"
    and "0 < duplicateCount"
  shows "length uniqueData + duplicateCount = length data \<and>
    (clear data = (Cleaned duplicateCount, writeRows data uniqueData) \<or>
     clear data = (SystemError, data)) \<and>
    length (snd (clear data)) = length data \<and>
    (\<forall>i. length uniqueData \<le> i \<and> i < length data \<longrightarrow> snd (clear data) ! i = data ! i) \<and>
    (list_all (\<lambda>r. length r \<le> 12) data \<longrightarrow>
       clear data = (Cleaned duplicateCount, writeRows data uniqueData) \<and>
       (\<forall>i < length uniqueData.
          snd (clear data) ! i = uniqueData ! i @ drop (length (uniqueData ! i)) (data ! i)))"
proof -
  from uniqueLoop_acc [OF assms(2)] assms(1)
  have len: "length uniqueData + duplicateCount = length data"
    and sub: "set uniqueData \<subseteq> {data ! 0} \<union> set (drop 1 data)"
    by auto
  from len assms(3) have le: "length uniqueData \<le> length data" by simp
  have "data ! 0 \<in> set data" using assms(1) by (cases data) auto
  with sub have sub': "set uniqueData \<subseteq> set data"
    using set_drop_subset [of 1 data] by auto
  have cases: "clear data =
      (case updateSheetData data (length uniqueData) uniqueData of
         None \<Rightarrow> (SystemError, data)
       | Some data' \<Rightarrow> (Cleaned duplicateCount, data'))"
    using assms by (simp add: clear_def)
  have upd: "updateSheetData data (length uniqueData) uniqueData = None \<or>
      updateSheetData data (length uniqueData) uniqueData = Some (writeRows data uniqueData)"
    by (simp add: updateSheetData_def)
  have alt: "clear data = (Cleaned duplicateCount, writeRows data uniqueData) \<or>
      clear data = (SystemError, data)"
    using cases upd by auto
  have frame: "\<forall>i. length uniqueData \<le> i \<and> i < length data \<longrightarrow>
      snd (clear data) ! i = data ! i"
    using alt writeRows_nth_frame by auto
  have keep: "length (snd (clear data)) = length data"
    using alt length_writeRows [OF le] by auto
  have narrow: "list_all (\<lambda>r. length r \<le> 12) data \<longrightarrow>
       clear data = (Cleaned duplicateCount, writeRows data uniqueData) \<and>
       (\<forall>i < length uniqueData.
          snd (clear data) ! i = uniqueData ! i @ drop (length (uniqueData ! i)) (data ! i))"
  proof
    assume "list_all (\<lambda>r. length r \<le> 12) data"
    with sub' have "list_all (\<lambda>r. length r \<le> 12) uniqueData"
      by (auto simp: list_all_iff)
    then have "updateSheetData data (length uniqueData) uniqueData
        = Some (writeRows data uniqueData)"
      by (simp add: updateSheetData_def)
    with cases have c: "clear data = (Cleaned duplicateCount, writeRows data uniqueData)"
      by simp
    then show "clear data = (Cleaned duplicateCount, writeRows data uniqueData) \<and>
       (\<forall>i < length uniqueData.
          snd (clear data) ! i = uniqueData ! i @ drop (length (uniqueData ! i)) (data ! i))"
      using writeRows_nth_written [OF _ le] by simp
  qed
  from len alt keep frame narrow show ?thesis by blast
qed

text \<open>
  A sheet with three rows, the second a variant of the first: the two survivors are
  written into the rows after the header, and the last row, which the operation does not
  write, still holds what it held.
\<close>

theorem clear_frame_witness:
  "clear dupData =
     (Cleaned 1,
      [dupData ! 0, dupData ! 1, dupData ! 3, dupData ! 3]) \<and>
   snd (clear dupData) ! 3 = dupData ! 3"
proof -
  have 1: "1 < length dupData" by code_simp
  have 2: "uniqueLoop (drop 1 dupData) {} [dupData ! 0] 0
      = ([dupData ! 0, dupData ! 1, dupData ! 3], 1)"
    by code_simp
  have 3: "list_all (\<lambda>r. length r \<le> 12) dupData" by code_simp
  have 4: "writeRows dupData [dupData ! 0, dupData ! 1, dupData ! 3]
      = [dupData ! 0, dupData ! 1, dupData ! 3, dupData ! 3]"
    by code_simp
  have 5: "length dupData = 4" by code_simp
  from clear_frame [OF 1 2] 3 4 5 show ?thesis by simp
qed

section \<open>The ranking of the aggregation\<close>

lemma set_encounterOrder: "set (encounterOrder ks) = set ks"
  by (induction ks) auto

lemma encounterOrder_snoc:
  "encounterOrder (ks @ [k]) =
     (if k \<in> set ks then encounterOrder ks else encounterOrder ks @ [k])"
  by (induction ks) (auto simp: set_encounterOrder)

lemma map_of_graph:
  "map_of (map (\<lambda>k. (k, f k)) xs) k = (if k \<in> set xs then Some (f k) else None)"
  by (induction xs) auto

text \<open>The tally holds every key once, in the order of first encounter, with the
  number of its occurrences.\<close>

lemma tallyAdd_graph:
  assumes cnt_k: "cnt' k = cnt k + 1" and cnt_other: "\<And>x. x \<noteq> k \<Longrightarrow> cnt' x = cnt x"
    and k0: "k \<notin> set ks \<Longrightarrow> cnt k = 0"
  shows "tallyAdd (map (\<lambda>x. (x, cnt x)) (encounterOrder ks)) k
       = map (\<lambda>x. (x, cnt' x)) (encounterOrder (ks @ [k]))"
proof (cases "k \<in> set ks")
  case True
  let ?m = "map (\<lambda>x. (x, cnt x)) (encounterOrder ks)"
  from True have "map_of ?m k = Some (cnt k)"
    by (simp add: map_of_graph set_encounterOrder)
  then have "tallyAdd ?m k = map (\<lambda>(k', c). if k' = k then (k', c + 1) else (k', c)) ?m"
    by (simp add: tallyAdd_def)
  also have "\<dots> = map (\<lambda>x. (x, cnt' x)) (encounterOrder ks)"
    using cnt_k cnt_other by (auto simp: comp_def)
  finally show ?thesis using True by (simp add: encounterOrder_snoc)
next
  case False
  let ?m = "map (\<lambda>x. (x, cnt x)) (encounterOrder ks)"
  from False have "map_of ?m k = None"
    by (simp add: map_of_graph set_encounterOrder)
  then have 1: "tallyAdd ?m k = ?m @ [(k, 1)]"
    by (simp add: tallyAdd_def)
  have other: "cnt' x = cnt x" if "x \<in> set (encounterOrder ks)" for x
  proof -
    from that False have "x \<noteq> k" by (auto simp: set_encounterOrder)
    then show ?thesis by (rule cnt_other)
  qed
  have 2: "map (\<lambda>x. (x, cnt' x)) (encounterOrder ks) = ?m"
    by (rule map_cong [OF refl]) (simp add: other)
  have 3: "cnt' k = 1" using cnt_k k0 [OF False] by simp
  have "map (\<lambda>x. (x, cnt' x)) (encounterOrder (ks @ [k]))
      = map (\<lambda>x. (x, cnt' x)) (encounterOrder ks) @ [(k, cnt' k)]"
    using False by (simp add: encounterOrder_snoc)
  also have "\<dots> = ?m @ [(k, 1)]" by (simp only: 2 3)
  finally show ?thesis using 1 by simp
qed

lemma tally_foldl:
  "foldl tallyAdd [] keys = map (\<lambda>k. (k, count_list keys k)) (encounterOrder keys)"
proof (induction keys rule: rev_induct)
  case Nil
  then show ?case by simp
next
  case (snoc k ks)
  have "foldl tallyAdd [] (ks @ [k])
      = tallyAdd (map (\<lambda>x. (x, count_list ks x)) (encounterOrder ks)) k"
    using snoc by simp
  also have "\<dots> = map (\<lambda>x. (x, count_list (ks @ [k]) x)) (encounterOrder (ks @ [k]))"
    by (rule tallyAdd_graph) (simp_all add: count_list_0_iff)
  finally show ?case .
qed

lemma sorted_ranking: "sorted_wrt (\<lambda>a b. snd a \<ge> snd b) (ranking m)"
proof -
  have "sorted (map (\<lambda>(k, c). - int c) (ranking m))"
    unfolding ranking_def by (rule sorted_sort_key)
  then show ?thesis
    by (simp add: sorted_wrt_map case_prod_beta)
qed

lemma ranking_ties:
  "filter (\<lambda>e. snd e = c) (ranking m) = filter (\<lambda>e. snd e = c) (entries m)"
proof -
  have "filter (\<lambda>e. (\<lambda>(k, c). - int c) e = - int c) (ranking m)
      = filter (\<lambda>e. (\<lambda>(k, c). - int c) e = - int c) (entries m)"
    unfolding ranking_def by (rule sort_key_stable)
  then show ?thesis by (simp add: case_prod_beta)
qed

lemma entries_no_index:
  "\<not> list_ex isArrayIndex (map fst m) \<Longrightarrow> entries m = m"
  by (auto simp: entries_def list_ex_iff filter_empty_conv case_prod_beta filter_id_conv)

lemma set_entries: "set (entries m) = set m"
  by (auto simp: entries_def)

lemma length_entries: "length (entries m) = length m"
  unfolding entries_def case_prod_beta
  by (simp add: sum_length_filter_compl)

lemma groupKey_cases:
  "groupKey col r = (if cell r col = [] then ''-'' else toUpperCase (cell r col))"
proof -
  have "toUpperCase ''-'' = ''-''" by code_simp
  then show ?thesis by (simp add: groupKey_def orElse_def)
qed

lemma keys_tallyBy:
  "map fst (tallyBy col rows) = encounterOrder (map (groupKey col) rows)"
  by (simp add: tallyBy_def tally_foldl comp_def)

text \<open>
  C9, as the code has it. The key of a row is its cell in upper case, or \<open>-\<close> when
  the cell is empty or missing. The tally holds every key with the number of its rows,
  in the order of first encounter. The ranking holds the same entries in descending order
  of count, and entries of equal count stand in the order of \<open>Object.entries\<close>: the keys
  that are array indices first, in ascending numeric order, the other keys after them
  in the order of first encounter. When no key is an array index, entries of equal count
  stand in the order of first encounter. The three tallies of the report are the columns
  11 (technician), 6 (work zone) and 5 (owner).
\<close>

theorem ranking_order:
  "(\<forall>r. groupKey col r = (if cell r col = [] then ''-'' else toUpperCase (cell r col))) \<and>
   tallyBy col rows =
     map (\<lambda>k. (k, count_list (map (groupKey col) rows) k))
       (encounterOrder (map (groupKey col) rows)) \<and>
   set (ranking (tallyBy col rows)) = set (tallyBy col rows) \<and>
   length (ranking (tallyBy col rows)) = length (tallyBy col rows) \<and>
   sorted_wrt (\<lambda>a b. snd a \<ge> snd b) (ranking (tallyBy col rows)) \<and>
   (\<forall>c. filter (\<lambda>e. snd e = c) (ranking (tallyBy col rows)) =
        filter (\<lambda>e. snd e = c) (entries (tallyBy col rows))) \<and>
   (\<not> list_ex isArrayIndex (map (groupKey col) rows) \<longrightarrow>
      (\<forall>c. filter (\<lambda>e. snd e = c) (ranking (tallyBy col rows)) =
           filter (\<lambda>e. snd e = c) (tallyBy col rows)))"
proof (intro conjI allI impI)
  show "groupKey col r = (if cell r col = [] then ''-'' else toUpperCase (cell r col))" for r
    by (rule groupKey_cases)
  show "tallyBy col rows =
     map (\<lambda>k. (k, count_list (map (groupKey col) rows) k))
       (encounterOrder (map (groupKey col) rows))"
    by (simp add: tallyBy_def tally_foldl)
  show "set (ranking (tallyBy col rows)) = set (tallyBy col rows)"
    by (simp add: ranking_def set_entries)
  show "length (ranking (tallyBy col rows)) = length (tallyBy col rows)"
    by (simp add: ranking_def length_entries)
  show "sorted_wrt (\<lambda>a b. snd a \<ge> snd b) (ranking (tallyBy col rows))"
    by (rule sorted_ranking)
  show "filter (\<lambda>e. snd e = c) (ranking (tallyBy col rows)) =
        filter (\<lambda>e. snd e = c) (entries (tallyBy col rows))" for c
    by (rule ranking_ties)
next
  fix c
  assume "\<not> list_ex isArrayIndex (map (groupKey col) rows)"
  then have "\<not> list_ex isArrayIndex (map fst (tallyBy col rows))"
    by (simp add: keys_tallyBy list_ex_iff set_encounterOrder)
  then have "entries (tallyBy col rows) = tallyBy col rows"
    by (rule entries_no_index)
  then show "filter (\<lambda>e. snd e = c) (ranking (tallyBy col rows)) =
        filter (\<lambda>e. snd e = c) (tallyBy col rows)"
    by (simp add: ranking_ties)
qed

text \<open>The counts A: 3, B: 5, C: 5 with B met before C: the ranking is B, C, A.\<close>

theorem ranking_order_witness:
  "byTechnician (aggregate rankRows) = [(''B'', 5), (''C'', 5), (''A'', 3)] \<and>
   tallyBy 11 rankRows = [(''B'', 5), (''C'', 5), (''A'', 3)] \<and>
   filter (\<lambda>e. snd e = 5) (ranking (tallyBy 11 rankRows)) =
     filter (\<lambda>e. snd e = 5) (tallyBy 11 rankRows)"
proof -
  have 1: "\<not> list_ex isArrayIndex (map (groupKey 11) rankRows)" by code_simp
  have 2: "byTechnician (aggregate rankRows) = [(''B'', 5), (''C'', 5), (''A'', 3)]"
    by code_simp
  have 3: "tallyBy 11 rankRows = [(''B'', 5), (''C'', 5), (''A'', 3)]"
    by code_simp
  from ranking_order [of 11 rankRows] 1
  have "filter (\<lambda>e. snd e = 5) (ranking (tallyBy 11 rankRows)) =
     filter (\<lambda>e. snd e = 5) (tallyBy 11 rankRows)"
    by blast
  with 2 3 show ?thesis by simp
qed

text \<open>
  The claim as the specification states it (entries of equal count in the order of
  first encounter) fails when a key is an array index: the technician \<open>BUDI\<close> is met
  before the technician \<open>16951456\<close>, both have one row, and \<open>16951456\<close> is ranked
  first.
\<close>

theorem ranking_encounter_counterexample:
  "map (groupKey 11) [techRow ''budi'', techRow ''16951456''] = [''BUDI'', ''16951456''] \<and>
   byTechnician (aggregate [techRow ''budi'', techRow ''16951456''])
     = [(''16951456'', 1), (''BUDI'', 1)]"
  by code_simp

section \<open>The windows of the period filter\<close>

text \<open>The operations on dates in a zone are the operations in UTC, shifted.\<close>

lemma UTC_LocalTime: "UTC tz (LocalTime tz t) = t"
  by (simp add: LocalTime_def UTC_def)

lemma LocalTime_UTC: "LocalTime tz (UTC tz l) = l"
  by (simp add: LocalTime_def UTC_def)

lemma UTC_0: "UTC 0 l = l"
  by (simp add: UTC_def)

lemma newDate_shift: "newDate tz y m d = UTC tz (newDate 0 y m d)"
  by (simp add: newDate_def UTC_def Let_def)

lemma setHours_shift: "setHours tz (UTC tz l) h m s ms = UTC tz (setHours 0 l h m s ms)"
  by (simp add: setHours_def LocalTime_def UTC_def)

lemma setDate_shift: "setDate tz (UTC tz l) n = UTC tz (setDate 0 l n)"
  by (simp add: setDate_def LocalTime_def UTC_def Let_def)

lemma getters_shift:
  "getDate tz (UTC tz l) = getDate 0 l"
  "getDay tz (UTC tz l) = getDay 0 l"
  "getMonth tz (UTC tz l) = getMonth 0 l"
  "getFullYear tz (UTC tz l) = getFullYear 0 l"
  by (simp_all add: getDate_def getDay_def getMonth_def getFullYear_def LocalTime_def UTC_def)

lemma customWindow_shift:
  "customWindow tz period (UTC tz l) = shiftWindow tz (customWindow 0 period l)"
  unfolding customWindow_def Let_def
  by (simp add: getters_shift setDate_shift setHours_shift UTC_0 newDate_shift [of tz])

lemma defaultWindow_shift:
  "defaultWindow tz period (UTC tz l) = shiftWindow tz (defaultWindow 0 period l)"
  unfolding defaultWindow_def Let_def
  by (simp add: getters_shift setDate_shift setHours_shift UTC_0 newDate_shift [of tz])

lemma periodWindow_custom:
  assumes "cd \<noteq> []" and "str_match cd datePattern = Some m"
  shows "periodWindow tz now period (Some cd) =
    shiftWindow tz (customWindow 0 period
      (newDate 0 (parseInt (group m 3)) (parseInt (group m 2) - 1) (parseInt (group m 1))))"
  using assms
  by (simp add: periodWindow_def Let_def newDate_shift [of tz] customWindow_shift)

lemma periodWindow_default:
  "periodWindow tz now period None =
     shiftWindow tz (defaultWindow 0 period (setHours 0 (LocalTime tz now) 0 0 0 0))"
proof -
  have "setHours tz now 0 0 0 0 = UTC tz (setHours 0 (LocalTime tz now) 0 0 0 0)"
    using setHours_shift [of tz "LocalTime tz now"] by (simp add: UTC_LocalTime)
  then show ?thesis
    by (simp add: periodWindow_def Let_def defaultWindow_shift)
qed

lemma mondayOffset_mod:
  "0 \<le> d \<Longrightarrow> d \<le> 6 \<Longrightarrow> mondayOffset d = - ((d + 6) mod 7)"
  unfolding mondayOffset_def by presburger

lemma getDay_range: "0 \<le> getDay tz t \<and> getDay tz t \<le> 6"
  by (simp add: getDay_def WeekDay_def)

text \<open>The anchor \<open>15/09/2025\<close>, and the windows in UTC.\<close>

lemma anchor_groups:
  "map_option (\<lambda>m. (group m 1, group m 2, group m 3)) (str_match ''15/09/2025'' datePattern)
     = Some (''15'', ''09'', ''2025'')"
  by code_simp

lemma anchor_target:
  "newDate 0 (parseInt ''2025'') (parseInt ''09'' - 1) (parseInt ''15'') = 1757894400000"
  by code_simp

lemma periodWindow_anchor:
  "periodWindow tz now period (Some ''15/09/2025'') =
     shiftWindow tz (customWindow 0 period 1757894400000)"
proof -
  from anchor_groups obtain m where m: "str_match ''15/09/2025'' datePattern = Some m"
    and g: "group m 1 = ''15''" "group m 2 = ''09''" "group m 3 = ''2025''"
    by auto
  have "periodWindow tz now period (Some ''15/09/2025'') =
    shiftWindow tz (customWindow 0 period
      (newDate 0 (parseInt (group m 3)) (parseInt (group m 2) - 1) (parseInt (group m 1))))"
    by (rule periodWindow_custom [OF _ m]) simp
  then show ?thesis by (simp only: g anchor_target)
qed

lemma windows_utc:
  "customWindow 0 ''daily'' 1757894400000 = Range (Some 1757894400000) (Some 1757980799999)"
  "customWindow 0 ''weekly'' 1757894400000 = Range (Some 1757894400000) (Some 1758499199999)"
  "customWindow 0 ''monthly'' 1757894400000 = Range (Some 1756684800000) (Some 1759276799999)"
  "defaultWindow 0 ''daily'' 1757894400000 = Range (Some 1757894400000) (Some 1757980799999)"
  "defaultWindow 0 ''weekly'' 1757894400000 = Range (Some 1757894400000) (Some 1758499199999)"
  "defaultWindow 0 ''monthly'' 1757894400000 = Range (Some 1756684800000) (Some 1759276799999)"
  by code_simp+

lemma stamps:
  "atLocal tz (2025, 9, 15, 0, 0, 0, 0) = UTC tz 1757894400000"
  "atLocal tz (2025, 9, 15, 23, 59, 59, 999) = UTC tz 1757980799999"
  "atLocal tz (2025, 9, 21, 23, 59, 59, 999) = UTC tz 1758499199999"
  "atLocal tz (2025, 9, 1, 0, 0, 0, 0) = UTC tz 1756684800000"
  "atLocal tz (2025, 9, 30, 23, 59, 59, 999) = UTC tz 1759276799999"
proof -
  have "MakeDate (daysFromCivil 2025 9 15) (MakeTime 0 0 0 0) = 1757894400000"
    "MakeDate (daysFromCivil 2025 9 15) (MakeTime 23 59 59 999) = 1757980799999"
    "MakeDate (daysFromCivil 2025 9 21) (MakeTime 23 59 59 999) = 1758499199999"
    "MakeDate (daysFromCivil 2025 9 1) (MakeTime 0 0 0 0) = 1756684800000"
    "MakeDate (daysFromCivil 2025 9 30) (MakeTime 23 59 59 999) = 1759276799999"
    by code_simp+
  then show
    "atLocal tz (2025, 9, 15, 0, 0, 0, 0) = UTC tz 1757894400000"
    "atLocal tz (2025, 9, 15, 23, 59, 59, 999) = UTC tz 1757980799999"
    "atLocal tz (2025, 9, 21, 23, 59, 59, 999) = UTC tz 1758499199999"
    "atLocal tz (2025, 9, 1, 0, 0, 0, 0) = UTC tz 1756684800000"
    "atLocal tz (2025, 9, 30, 23, 59, 59, 999) = UTC tz 1759276799999"
    by simp_all
qed

lemma localFields_shift: "localFields tz (UTC tz l) = localFields 0 l"
  by (simp add: localFields_def LocalTime_def UTC_def)

lemma fields_utc:
  "localFields 0 1757894400000 = (2025, 9, 15, 0, 0, 0, 0)"
  "localFields 0 1757980799999 = (2025, 9, 15, 23, 59, 59, 999)"
  "localFields 0 1758499199999 = (2025, 9, 21, 23, 59, 59, 999)"
  "localFields 0 1756684800000 = (2025, 9, 1, 0, 0, 0, 0)"
  "localFields 0 1759276799999 = (2025, 9, 30, 23, 59, 59, 999)"
  "getDay 0 1757894400000 = 1"
  by code_simp+

lemma today_of_day:
  assumes "Day (LocalTime tz now) = daysFromCivil 2025 9 15"
  shows "setHours 0 (LocalTime tz now) 0 0 0 0 = 1757894400000"
proof -
  have "MakeDate (daysFromCivil 2025 9 15) (MakeTime 0 0 0 0) = 1757894400000"
    by code_simp
  with assms show ?thesis
    by (simp add: setHours_def LocalTime_def UTC_def)
qed

text \<open>
  C3. For the anchor 15 September 2025, a Monday, given as \<open>15/09/2025\<close>, the window
  of the daily filter is the local day from 00:00:00.000 to 23:59:59.999, the window of
  the weekly filter runs from 15 September 00:00:00.000 to 21 September 23:59:59.999,
  and the window of the monthly filter from 1 September 00:00:00.000 to 30 September
  23:59:59.999, in every zone; the bounds read back as these calendar times. The
  offset to the Monday of a week is minus \<open>(dayOfWeek + 6) mod 7\<close> days. Without an
  anchor the windows are the same at every moment of that day.
\<close>

theorem windows_of_15_September_2025:
  "periodWindow tz now ''daily'' (Some ''15/09/2025'') =
     Range (Some (atLocal tz (2025, 9, 15, 0, 0, 0, 0)))
           (Some (atLocal tz (2025, 9, 15, 23, 59, 59, 999))) \<and>
   periodWindow tz now ''weekly'' (Some ''15/09/2025'') =
     Range (Some (atLocal tz (2025, 9, 15, 0, 0, 0, 0)))
           (Some (atLocal tz (2025, 9, 21, 23, 59, 59, 999))) \<and>
   periodWindow tz now ''monthly'' (Some ''15/09/2025'') =
     Range (Some (atLocal tz (2025, 9, 1, 0, 0, 0, 0)))
           (Some (atLocal tz (2025, 9, 30, 23, 59, 59, 999))) \<and>
   localFields tz (atLocal tz (2025, 9, 15, 0, 0, 0, 0)) = (2025, 9, 15, 0, 0, 0, 0) \<and>
   localFields tz (atLocal tz (2025, 9, 15, 23, 59, 59, 999)) = (2025, 9, 15, 23, 59, 59, 999) \<and>
   localFields tz (atLocal tz (2025, 9, 21, 23, 59, 59, 999)) = (2025, 9, 21, 23, 59, 59, 999) \<and>
   localFields tz (atLocal tz (2025, 9, 1, 0, 0, 0, 0)) = (2025, 9, 1, 0, 0, 0, 0) \<and>
   localFields tz (atLocal tz (2025, 9, 30, 23, 59, 59, 999)) = (2025, 9, 30, 23, 59, 59, 999) \<and>
   getDay tz (atLocal tz (2025, 9, 15, 0, 0, 0, 0)) = 1 \<and>
   (\<forall>t. mondayOffset (getDay tz t) = - ((getDay tz t + 6) mod 7)) \<and>
   (Day (LocalTime tz now) = daysFromCivil 2025 9 15 \<longrightarrow>
      periodWindow tz now ''daily'' None = periodWindow tz now ''daily'' (Some ''15/09/2025'') \<and>
      periodWindow tz now ''weekly'' None = periodWindow tz now ''weekly'' (Some ''15/09/2025'') \<and>
      periodWindow tz now ''monthly'' None =
        periodWindow tz now ''monthly'' (Some ''15/09/2025''))"
proof -
  have custom:
    "periodWindow tz now ''daily'' (Some ''15/09/2025'') =
       Range (Some (atLocal tz (2025, 9, 15, 0, 0, 0, 0)))
             (Some (atLocal tz (2025, 9, 15, 23, 59, 59, 999)))"
    "periodWindow tz now ''weekly'' (Some ''15/09/2025'') =
       Range (Some (atLocal tz (2025, 9, 15, 0, 0, 0, 0)))
             (Some (atLocal tz (2025, 9, 21, 23, 59, 59, 999)))"
    "periodWindow tz now ''monthly'' (Some ''15/09/2025'') =
       Range (Some (atLocal tz (2025, 9, 1, 0, 0, 0, 0)))
             (Some (atLocal tz (2025, 9, 30, 23, 59, 59, 999)))"
    by (simp_all only: periodWindow_anchor windows_utc stamps shiftWindow.simps
        option.map)
  have fields:
    "localFields tz (atLocal tz (2025, 9, 15, 0, 0, 0, 0)) = (2025, 9, 15, 0, 0, 0, 0)"
    "localFields tz (atLocal tz (2025, 9, 15, 23, 59, 59, 999)) = (2025, 9, 15, 23, 59, 59, 999)"
    "localFields tz (atLocal tz (2025, 9, 21, 23, 59, 59, 999)) = (2025, 9, 21, 23, 59, 59, 999)"
    "localFields tz (atLocal tz (2025, 9, 1, 0, 0, 0, 0)) = (2025, 9, 1, 0, 0, 0, 0)"
    "localFields tz (atLocal tz (2025, 9, 30, 23, 59, 59, 999)) = (2025, 9, 30, 23, 59, 59, 999)"
    "getDay tz (atLocal tz (2025, 9, 15, 0, 0, 0, 0)) = 1"
    by (simp_all only: stamps localFields_shift getters_shift fields_utc)
  have monday: "\<forall>t. mondayOffset (getDay tz t) = - ((getDay tz t + 6) mod 7)"
    using mondayOffset_mod getDay_range by blast
  have default: "periodWindow tz now p None = periodWindow tz now p (Some ''15/09/2025'')"
    if "Day (LocalTime tz now) = daysFromCivil 2025 9 15"
      and "p \<in> {''daily'', ''weekly'', ''monthly''}" for p
  proof -
    have "periodWindow tz now p None = shiftWindow tz (defaultWindow 0 p 1757894400000)"
      by (simp only: periodWindow_default today_of_day [OF that(1)])
    moreover have "defaultWindow 0 p 1757894400000 = customWindow 0 p 1757894400000"
      using that(2) windows_utc by auto
    ultimately show ?thesis by (simp only: periodWindow_anchor)
  qed
  from custom fields monday default show ?thesis by simp
qed

text \<open>In Jakarta, at 16:53:20 of 15 September 2025: the week from Monday 15 September
  00:00 to Sunday 21 September 23:59:59.999, as time values.\<close>

theorem windows_of_15_September_2025_witness:
  "Day (LocalTime jakarta sampleNow) = daysFromCivil 2025 9 15 \<and>
   periodWindow jakarta sampleNow ''weekly'' (Some ''15/09/2025'') =
     Range (Some 1757869200000) (Some 1758473999999) \<and>
   periodWindow jakarta sampleNow ''weekly'' None =
     Range (Some 1757869200000) (Some 1758473999999) \<and>
   mondayOffset (getDay jakarta sampleNow) = - ((getDay jakarta sampleNow + 6) mod 7)"
proof -
  have 1: "Day (LocalTime jakarta sampleNow) = daysFromCivil 2025 9 15" by code_simp
  have 2: "atLocal jakarta (2025, 9, 15, 0, 0, 0, 0) = 1757869200000"
    "atLocal jakarta (2025, 9, 21, 23, 59, 59, 999) = 1758473999999"
    by code_simp+
  from windows_of_15_September_2025 [of jakarta sampleNow] 1 2 show ?thesis
    by simp
qed

section \<open>Anchors and stored dates that do not parse\<close>

lemma inWindow_undefined: "inWindow d None b = False"
  by (cases "(d, None :: int option, b)" rule: inWindow.cases) auto

lemma inWindow_Time: "inWindow d a b \<Longrightarrow> \<exists>t. d = Some (Time t)"
  by (cases "(d, a, b)" rule: inWindow.cases) auto

text \<open>
  An anchor that is not empty and has no match of the date pattern leaves \<open>startDate\<close>
  and \<open>endDate\<close> undefined, and no row passes the comparison with them: the result is
  empty, for every sheet and every period.
\<close>

lemma filter_unmatched_anchor:
  assumes "cd \<noteq> []" and "str_match cd datePattern = None"
  shows "filterDataByPeriod legacy tz now data period (Some cd) = []"
proof -
  from assms have "periodWindow tz now period (Some cd) = Range None None"
    by (simp add: periodWindow_def Let_def)
  then show ?thesis
    by (simp add: filterDataByPeriod_def keepRow_def Let_def inWindow_undefined)
qed

text \<open>
  C7 does not hold of the code. On 15 September 2025 in Jakarta the sheet \<open>dateData\<close>
  has one row of the day. The daily filter without an anchor returns that row; with
  the anchor \<open>kemarin\<close>, which has no date in it, the filter returns nothing, where the
  claim says it returns what it returns without an anchor.
\<close>

theorem unmatched_anchor_not_now:
  "filterDataByPeriod legacy jakarta sampleNow dateData ''daily'' None = [dateData ! 1] \<and>
   filterDataByPeriod legacy jakarta sampleNow dateData ''daily'' (Some ''kemarin'') = []"
proof -
  have "filterDataByPeriod legacy jakarta sampleNow dateData ''daily'' None = [dateData ! 1]"
    by code_simp
  moreover have "str_match ''kemarin'' datePattern = None"
    by code_simp
  then have "filterDataByPeriod legacy jakarta sampleNow dateData ''daily'' (Some ''kemarin'')
      = []"
    by (intro filter_unmatched_anchor) simp_all
  ultimately show ?thesis by simp
qed

text \<open>The month table, and the stored dates that give \<open>null\<close>.\<close>

lemma months_None:
  "k \<notin> {''januari'', ''februari'', ''maret'', ''april'', ''mei'', ''juni'', ''juli'',
          ''agustus'', ''september'', ''oktober'', ''november'', ''desember'',
          ''constructor'', ''__proto__''}
   \<Longrightarrow> months k = None"
  unfolding months_def by (simp add: map_of_eq_None_iff)

lemma parseIndonesianDate_null:
  "length (split_on (CHR '' '') (toLowerCase s)) < 4 \<or>
   months (split_on (CHR '' '') (toLowerCase s) ! 2) = None
   \<Longrightarrow> parseIndonesianDate legacy s = None"
  by (auto simp: parseIndonesianDate_def Let_def)

lemma filtered_rows_parse:
  assumes "r \<in> set (filterDataByPeriod legacy tz now data period cd)"
    and "period \<in> {''daily'', ''weekly'', ''monthly''} \<or> (cd \<noteq> None \<and> cd \<noteq> Some [])"
  shows "\<exists>t. parseIndonesianDate legacy (cell r 0) = Some (Time t)"
proof (cases "periodWindow tz now period cd")
  case AllRows
  have "periodWindow tz now period cd \<noteq> AllRows"
    using assms(2)
    by (auto simp: periodWindow_def Let_def defaultWindow_def customWindow_def
        split: option.splits)
  with AllRows show ?thesis by simp
next
  case (Range a b)
  with assms(1) have "keepRow legacy a b r"
    by (simp add: filterDataByPeriod_def)
  then show ?thesis
    using inWindow_Time by (auto simp: keepRow_def Let_def)
qed

text \<open>
  C8, as the code has it. A row of the result of a daily, weekly or monthly filter (or of
  any filter with an anchor) has a date that parses to a valid date: a row whose date
  gives \<open>null\<close> or an invalid date is in no such result. The date gives \<open>null\<close> when it
  has fewer than four pieces between single spaces or when its third piece, in lower case,
  is not in the month table, which holds the twelve month names and the two inherited
  names \<open>constructor\<close> and \<open>__proto__\<close>. The first piece, the weekday, is not looked at.
  Nothing in the filter throws: the model has no failing path.
\<close>

theorem malformed_dates_excluded:
  "(r \<in> set (filterDataByPeriod legacy tz now data period cd) \<and>
    period \<in> {''daily'', ''weekly'', ''monthly''}
      \<longrightarrow> (\<exists>t. parseIndonesianDate legacy (cell r 0) = Some (Time t))) \<and>
   (length (split_on (CHR '' '') (toLowerCase s)) < 4 \<or>
    split_on (CHR '' '') (toLowerCase s) ! 2 \<notin>
      {''januari'', ''februari'', ''maret'', ''april'', ''mei'', ''juni'', ''juli'',
       ''agustus'', ''september'', ''oktober'', ''november'', ''desember'',
       ''constructor'', ''__proto__''}
      \<longrightarrow> parseIndonesianDate legacy s = None)"
proof (intro conjI impI)
  assume "r \<in> set (filterDataByPeriod legacy tz now data period cd) \<and>
    period \<in> {''daily'', ''weekly'', ''monthly''}"
  then show "\<exists>t. parseIndonesianDate legacy (cell r 0) = Some (Time t)"
    using filtered_rows_parse by blast
next
  assume "length (split_on (CHR '' '') (toLowerCase s)) < 4 \<or>
    split_on (CHR '' '') (toLowerCase s) ! 2 \<notin>
      {''januari'', ''februari'', ''maret'', ''april'', ''mei'', ''juni'', ''juli'',
       ''agustus'', ''september'', ''oktober'', ''november'', ''desember'',
       ''constructor'', ''__proto__''}"
  then have "length (split_on (CHR '' '') (toLowerCase s)) < 4 \<or>
    months (split_on (CHR '' '') (toLowerCase s) ! 2) = None"
  proof (elim disjE)
    assume "length (split_on (CHR '' '') (toLowerCase s)) < 4"
    then show ?thesis by (rule disjI1)
  next
    assume "split_on (CHR '' '') (toLowerCase s) ! 2 \<notin>
      {''januari'', ''februari'', ''maret'', ''april'', ''mei'', ''juni'', ''juli'',
       ''agustus'', ''september'', ''oktober'', ''november'', ''desember'',
       ''constructor'', ''__proto__''}"
    then show ?thesis by (intro disjI2 months_None)
  qed
  then show "parseIndonesianDate legacy s = None"
    by (rule parseIndonesianDate_null)
qed

text \<open>The rows of \<open>oddData\<close> with the month \<open>Septembre\<close> and with three pieces only are
  in no window; the daily filter of 15 September 2025 drops both.\<close>

theorem malformed_dates_excluded_witness:
  "parseIndonesianDate noLegacy ''Senin, 15 Septembre 2025'' = None \<and>
   parseIndonesianDate noLegacy ''15 September 2025'' = None \<and>
   oddData ! 2 \<notin> set (filterDataByPeriod noLegacy jakarta sampleNow oddData ''daily''
      (Some ''15/09/2025'')) \<and>
   oddData ! 3 \<notin> set (filterDataByPeriod noLegacy jakarta sampleNow oddData ''daily''
      (Some ''15/09/2025''))"
proof -
  have 1: "split_on (CHR '' '') (toLowerCase ''Senin, 15 Septembre 2025'') ! 2 \<notin>
      {''januari'', ''februari'', ''maret'', ''april'', ''mei'', ''juni'', ''juli'',
       ''agustus'', ''september'', ''oktober'', ''november'', ''desember'',
       ''constructor'', ''__proto__''}"
    by code_simp
  have 2: "length (split_on (CHR '' '') (toLowerCase ''15 September 2025'')) < 4"
    by code_simp
  have 3: "cell (oddData ! 2) 0 = ''Senin, 15 Septembre 2025''"
    "cell (oddData ! 3) 0 = ''15 September 2025''"
    by code_simp+
  note null = malformed_dates_excluded [THEN conjunct2, rule_format]
  note kept = malformed_dates_excluded [THEN conjunct1, rule_format, OF conjI]
  have a: "parseIndonesianDate noLegacy ''Senin, 15 Septembre 2025'' = None"
    by (rule null [OF disjI2, OF 1])
  have b: "parseIndonesianDate noLegacy ''15 September 2025'' = None"
    by (rule null [OF disjI1, OF 2])
  have p: "''daily'' \<in> {''daily'', ''weekly'', ''monthly''}" by simp
  have c: "oddData ! 2 \<notin> set (filterDataByPeriod noLegacy jakarta sampleNow oddData ''daily''
      (Some ''15/09/2025''))"
  proof
    assume "oddData ! 2 \<in> set (filterDataByPeriod noLegacy jakarta sampleNow oddData ''daily''
      (Some ''15/09/2025''))"
    from kept [OF this p] show False by (simp add: 3 a)
  qed
  have d: "oddData ! 3 \<notin> set (filterDataByPeriod noLegacy jakarta sampleNow oddData ''daily''
      (Some ''15/09/2025''))"
  proof
    assume "oddData ! 3 \<in> set (filterDataByPeriod noLegacy jakarta sampleNow oddData ''daily''
      (Some ''15/09/2025''))"
    from kept [OF this p] show False by (simp add: 3 b)
  qed
  from a b c d show ?thesis by simp
qed

text \<open>
  The claim as the specification states it fails for the weekday: the stored date
  \<open>Xyz, 15 September 2025\<close> has no weekday of the language, and the daily filter of
  15 September 2025 returns its row.
\<close>

theorem unknown_weekday_counterexample:
  "filterDataByPeriod noLegacy jakarta sampleNow oddData ''daily'' (Some ''15/09/2025'')
     = [[''Xyz, 15 September 2025'', ''SC333333'']]"
  by code_simp

section \<open>The technician of a record\<close>

lemma teknisi_parseAktivasi:
  "teknisi (parseAktivasi username text userRow) = removeAt (orElse (cell userRow 1) username)"
  by (simp add: parseAktivasi_def parseTSEL_def parseBGES_def parseManual_def Let_def)

lemma cell_sheetRow_teknisi: "cell (sheetRow tanggal p) 11 = teknisi p"
  by (simp add: sheetRow_def cell_def)

lemma aktivasi_Saved:
  assumes "aktivasi users data tanggal username msg = (Saved, data')"
  shows "\<exists>user. getUserData users username = Some user \<and>
    data' = data @ [sheetRow tanggal (parseAktivasi username (trim (stripCommand msg)) user)]"
  using assms
  by (auto simp: aktivasi_def Let_def appendSheetData_def split: option.splits if_splits)

lemma legacyAktivasi_Saved:
  assumes "legacyAktivasi users data tanggal username msg = (Saved, data')"
  shows "\<exists>r. data' = data @ [r] \<and> length r = 12 \<and>
    r ! 11 = legacyTeknisi (trim (stripCommand msg))"
proof -
  from assms obtain user where u: "getUserData users username = Some user"
    by (cases "getUserData users username") (auto simp: legacyAktivasi_def)
  let ?t = "trim (stripCommand msg)"
  from assms u have t: "?t \<noteq> []"
    by (auto simp: legacyAktivasi_def Let_def split: if_splits)
  from assms u t obtain own where o: "legacyOwner ?t (textLines ?t) = Some own"
    by (cases "legacyOwner ?t (textLines ?t)") (auto simp: legacyAktivasi_def Let_def)
  from assms u t o show ?thesis
    by (auto simp: legacyAktivasi_def Let_def appendSheetData_def legacyTeknisi_def
        split: if_splits)
qed

text \<open>
  C6, as the code has it. In the present handler the technician of the extracted record
  is the handle of the resolved user (the second cell of the user's row, or the name of
  the sender when that cell is empty) without its first \<open>@\<close>, whatever the text is; for
  a handle that starts with \<open>@\<close> that is the handle without its leading \<open>@\<close>. The row
  that a request appends carries this technician in its last column. In the earlier
  handler the technician is what the text says: the value of the labelled line
  \<open>TEKNISI :\<close> when the text has one with a value, and else the trimmed capture of
  \<open>TEKNISI[ :|]+(.+)\<close> in the first line that matches it (empty when there is none);
  the row that the earlier handler appends carries that string, as it stands, in its
  last column.
\<close>

theorem technician_from_user:
  "teknisi (parseAktivasi username text userRow) = removeAt (orElse (cell userRow 1) username) \<and>
   (cell userRow 1 = CHR ''@'' # h \<longrightarrow> teknisi (parseAktivasi username text userRow) = h) \<and>
   (aktivasi users data tanggal username msg = (Saved, data') \<longrightarrow>
      (\<exists>user. getUserData users username = Some user \<and>
         cell (last data') 11 = removeAt (orElse (cell user 1) username))) \<and>
   legacyTeknisi text =
     (if getValue (textLines text) ''TEKNISI'' \<noteq> [] then getValue (textLines text) ''TEKNISI''
      else case find (\<lambda>l. str_match l re_legacy_teknisi \<noteq> None) (textLines text) of
             None \<Rightarrow> []
           | Some line \<Rightarrow>
               (case str_match line re_legacy_teknisi of
                  None \<Rightarrow> [] | Some m \<Rightarrow> trim (group m 1))) \<and>
   (legacyAktivasi users data tanggal username msg = (Saved, data') \<longrightarrow>
      length data' = Suc (length data) \<and> take (length data) data' = data \<and>
      cell (last data') 11 = legacyTeknisi (trim (stripCommand msg)))"
proof (intro conjI impI)
  show "teknisi (parseAktivasi username text userRow)
      = removeAt (orElse (cell userRow 1) username)"
    by (rule teknisi_parseAktivasi)
next
  assume "cell userRow 1 = CHR ''@'' # h"
  then show "teknisi (parseAktivasi username text userRow) = h"
    by (simp add: teknisi_parseAktivasi orElse_def removeAt_def)
next
  assume "aktivasi users data tanggal username msg = (Saved, data')"
  from aktivasi_Saved [OF this] obtain user where u: "getUserData users username = Some user"
    and d: "data' = data @ [sheetRow tanggal (parseAktivasi username (trim (stripCommand msg)) user)]"
    by blast
  from d have "cell (last data') 11 = removeAt (orElse (cell user 1) username)"
    by (simp add: cell_sheetRow_teknisi teknisi_parseAktivasi)
  with u show "\<exists>user. getUserData users username = Some user \<and>
         cell (last data') 11 = removeAt (orElse (cell user 1) username)"
    by blast
next
  show "legacyTeknisi text =
     (if getValue (textLines text) ''TEKNISI'' \<noteq> [] then getValue (textLines text) ''TEKNISI''
      else case find (\<lambda>l. str_match l re_legacy_teknisi \<noteq> None) (textLines text) of
             None \<Rightarrow> []
           | Some line \<Rightarrow>
               (case str_match line re_legacy_teknisi of
                  None \<Rightarrow> [] | Some m \<Rightarrow> trim (group m 1)))"
    by (simp add: legacyTeknisi_def getField_def findByPattern_def Let_def)
next
  assume l: "legacyAktivasi users data tanggal username msg = (Saved, data')"
  from legacyAktivasi_Saved [OF l] obtain r where r: "data' = data @ [r]" "length r = 12"
    "r ! 11 = legacyTeknisi (trim (stripCommand msg))"
    by blast
  then show "length data' = Suc (length data)" "take (length data) data' = data"
    "cell (last data') 11 = legacyTeknisi (trim (stripCommand msg))"
    by (simp_all add: cell_def)
qed

text \<open>The sender \<open>Budi\<close>, registered as \<open>@budi\<close>, sends a text that names another
  technician: the record has \<open>budi\<close>.\<close>

theorem technician_from_user_witness:
  "teknisi (parseAktivasi ''Budi'' (''AO : SC123457'' @ [CHR 0x0A] @ ''TEKNISI : @orang_lain'')
      [''1'', ''@budi'', ''USER'', ''Aktif'']) = ''budi''"
proof -
  have "cell [''1'', ''@budi'', ''USER'', ''Aktif''] 1 = CHR ''@'' # ''budi''"
    by code_simp
  with technician_from_user [of "''Budi''" _ "[''1'', ''@budi'', ''USER'', ''Aktif'']" "''budi''"]
  show ?thesis by blast
qed

text \<open>The fallback pattern of the earlier handler, on a line without the space before
  the colon.\<close>

lemma legacyTeknisi_fallback_sample:
  "legacyTeknisi ''teknisi: @orang_lain'' = ''@orang_lain''"
  by code_simp

text \<open>
  The claim as the specification states it fails for the earlier handler: the sender
  \<open>Budi\<close> sends a text that names \<open>@orang_lain\<close>, and the row that is stored has
  \<open>@orang_lain\<close>, with its \<open>@\<close>, as the technician.
\<close>

theorem legacy_technician_counterexample:
  "legacyAktivasi sampleUsers sampleData ''Senin, 15 September 2025'' ''Budi''
     (''/aktivasi '' @ legacyText) =
   (Saved, sampleData @
      [[''Senin, 15 September 2025'', [], [], [], [], [], [], ''ZTEG12345678'',
        ''987654321'', [], [], ''@orang_lain'']])"
  by code_simp

section \<open>Facts about the matcher\<close>

lemma rep_sound:
  "(p', s', c') \<in> set (rep g lo hi P p s c) \<Longrightarrow>
   c' = c \<and> (\<exists>v. s = v @ s' \<and> list_all P v \<and> lo \<le> length v \<and>
      (case hi of None \<Rightarrow> True | Some h \<Rightarrow> length v \<le> h))"
proof (induction s arbitrary: lo hi p)
  case Nil
  then show ?case by (auto split: if_splits option.splits)
next
  case (Cons x xs)
  let ?more = "rep g (lo - 1) (map_option (\<lambda>h. h - 1) hi) P (Some x) xs c"
  from Cons.prems consider
    (stop) "lo = 0" "(p', s', c') = (p, x # xs, c)"
    | (more) "P x" "hi \<noteq> Some 0" "(p', s', c') \<in> set ?more"
    by (auto simp: Let_def split: if_splits)
  then show ?case
  proof cases
    case stop
    then show ?thesis by (auto split: option.splits)
  next
    case more
    from Cons.IH [OF more(3)] obtain v where v: "c' = c" "xs = v @ s'" "list_all P v"
      "lo - 1 \<le> length v"
      "(case map_option (\<lambda>h. h - 1) hi of None \<Rightarrow> True | Some h \<Rightarrow> length v \<le> h)"
      by blast
    have "x # xs = (x # v) @ s'" using v by simp
    moreover have "list_all P (x # v)" using v more by simp
    moreover have "lo \<le> length (x # v)" using v by simp
    moreover have "(case hi of None \<Rightarrow> True | Some h \<Rightarrow> length (x # v) \<le> h)"
      using v more by (cases hi) auto
    ultimately show ?thesis using v(1) by blast
  qed
qed

lemma rep_complete:
  "list_all P v \<Longrightarrow> lo \<le> length v \<Longrightarrow>
   (case hi of None \<Rightarrow> True | Some h \<Rightarrow> length v \<le> h) \<Longrightarrow>
   \<exists>p'. (p', rest, c) \<in> set (rep g lo hi P p (v @ rest) c)"
proof (induction v arbitrary: lo hi p)
  case Nil
  then show ?case by (cases rest) (auto simp: Let_def)
next
  case (Cons x v)
  have "hi \<noteq> Some 0" using Cons.prems by (cases hi) auto
  moreover have "P x" "list_all P v" using Cons.prems by simp_all
  moreover have "lo - 1 \<le> length v" using Cons.prems by simp
  moreover have "(case map_option (\<lambda>h. h - 1) hi of None \<Rightarrow> True | Some h \<Rightarrow> length v \<le> h)"
    using Cons.prems by (cases hi) auto
  ultimately obtain p' where
    "(p', rest, c) \<in> set (rep g (lo - 1) (map_option (\<lambda>h. h - 1) hi) P (Some x) (v @ rest) c)"
    using Cons.IH by blast
  with \<open>P x\<close> \<open>hi \<noteq> Some 0\<close> show ?case by (auto simp: Let_def)
qed

lemma rmatch_sound:
  "(p', s', c') \<in> set (rmatch r (p, s, c)) \<Longrightarrow> \<exists>v. s = v @ s' \<and> v \<in> lang r"
proof (induction r arbitrary: p s c p' s' c')
  case (Chr P)
  then show ?case by (auto split: list.splits if_splits)
next
  case (Rep g lo hi P)
  then show ?case using rep_sound [of p' s' c' g lo hi P p s c] by auto
next
  case (Seq a b)
  from Seq.prems obtain p1 s1 c1 where 1: "(p1, s1, c1) \<in> set (rmatch a (p, s, c))"
    and 2: "(p', s', c') \<in> set (rmatch b (p1, s1, c1))"
    by auto
  from Seq.IH(1) [OF 1] obtain u where u: "s = u @ s1" "u \<in> lang a" by blast
  from Seq.IH(2) [OF 2] obtain w where w: "s1 = w @ s'" "w \<in> lang b" by blast
  from u w have "s = (u @ w) @ s'" "u @ w \<in> lang (Seq a b)" by auto
  then show ?case by blast
next
  case (Grp i r)
  then show ?case by auto
next
  case WordB
  then show ?case by (auto split: if_splits)
next
  case Eps
  then show ?case by auto
qed

lemma rmatch_complete:
  "noWordB r \<Longrightarrow> v \<in> lang r \<Longrightarrow> \<exists>p' c'. (p', rest, c') \<in> set (rmatch r (p, v @ rest, c))"
proof (induction r arbitrary: v rest p c)
  case (Chr P)
  then show ?case by auto
next
  case (Rep g lo hi P)
  then show ?case using rep_complete [of P v lo hi rest c g p] by auto
next
  case (Seq a b)
  from Seq.prems obtain u w where uw: "v = u @ w" "u \<in> lang a" "w \<in> lang b"
    and nw: "noWordB a" "noWordB b"
    by auto
  from Seq.IH(1) [OF nw(1) uw(2), of "w @ rest" p c] obtain p1 c1
    where 1: "(p1, w @ rest, c1) \<in> set (rmatch a (p, u @ w @ rest, c))" by blast
  from Seq.IH(2) [OF nw(2) uw(3), of rest p1 c1] obtain p2 c2
    where 2: "(p2, rest, c2) \<in> set (rmatch b (p1, w @ rest, c1))" by blast
  from 1 2 uw(1) have "(p2, rest, c2) \<in> set (rmatch (Seq a b) (p, v @ rest, c))"
    by auto
  then show ?case by blast
next
  case (Grp i r)
  from Grp.prems have "noWordB r" "v \<in> lang r" by simp_all
  from Grp.IH [OF this, of rest p c] obtain p' c'
    where "(p', rest, c') \<in> set (rmatch r (p, v @ rest, c))" by blast
  then have "(p', rest, c'(i \<mapsto> take (length (v @ rest) - length rest) (v @ rest)))
      \<in> set (rmatch (Grp i r) (p, v @ rest, c))"
    by force
  then show ?case by blast
next
  case WordB
  then show ?case by simp
next
  case Eps
  then show ?case by simp
qed

lemma search_sound:
  "search r p s i = Some m \<Longrightarrow>
   \<exists>p0 s0 p' s' c'. (p', s', c') \<in> set (rmatch r (p0, s0, Map.empty)) \<and>
      whole m = take (length s0 - length s') s0 \<and> groups m = c'"
proof (induction s arbitrary: p i)
  case Nil
  then obtain p' s' c' rest where h: "rmatch r (p, [], Map.empty) = (p', s', c') # rest"
    and m: "m = \<lparr>index = i, whole = [], groups = c'\<rparr>"
    by (auto split: list.splits)
  from h have "(p', s', c') \<in> set (rmatch r (p, [], Map.empty))" by simp
  with m show ?case by fastforce
next
  case (Cons x xs)
  show ?case
  proof (cases "rmatch r (p, x # xs, Map.empty)")
    case Nil
    with Cons.prems have "search r (Some x) xs (Suc i) = Some m" by simp
    from Cons.IH [OF this] show ?thesis .
  next
    case (Cons st rest)
    obtain p' s' c' where st: "st = (p', s', c')" by (cases st)
    with Cons Cons.prems
    have m: "m = \<lparr>index = i, whole = take (length (x # xs) - length s') (x # xs), groups = c'\<rparr>"
      by simp
    from Cons st have "(p', s', c') \<in> set (rmatch r (p, x # xs, Map.empty))" by simp
    with m show ?thesis by fastforce
  qed
qed

lemma search_complete:
  "i \<le> length s \<Longrightarrow> \<forall>p. rmatch r (p, drop i s, Map.empty) \<noteq> [] \<Longrightarrow>
   search r p0 s k \<noteq> None"
proof (induction s arbitrary: i p0 k)
  case Nil
  then have "rmatch r (p0, [], Map.empty) \<noteq> []" by simp
  then show ?case by (auto split: list.splits)
next
  case (Cons x xs)
  show ?case
  proof (cases "rmatch r (p0, x # xs, Map.empty)")
    case Nil
    with Cons.prems(2) have "i \<noteq> 0" by (cases i) auto
    then obtain j where j: "i = Suc j" by (cases i) auto
    with Cons.prems have "j \<le> length xs" "\<forall>p. rmatch r (p, drop j xs, Map.empty) \<noteq> []"
      by simp_all
    from Cons.IH [OF this] have "search r (Some x) xs (Suc k) \<noteq> None" .
    with Nil show ?thesis by simp
  next
    case (Cons st rest)
    then show ?thesis by (cases st) simp
  qed
qed

lemma search_whole_lang: "search r p s i = Some m \<Longrightarrow> whole m \<in> lang r"
proof -
  assume "search r p s i = Some m"
  from search_sound [OF this] obtain p0 s0 p' s' c'
    where 1: "(p', s', c') \<in> set (rmatch r (p0, s0, Map.empty))"
      and 2: "whole m = take (length s0 - length s') s0"
    by blast
  from rmatch_sound [OF 1] obtain v where "s0 = v @ s'" "v \<in> lang r" by blast
  with 2 show ?thesis by simp
qed

lemma matchAllFrom_sound:
  "w \<in> set (matchAllFrom r p s) \<Longrightarrow> \<exists>p0 s0 m. search r p0 s0 0 = Some m \<and> whole m = w"
proof (induction r p s rule: matchAllFrom.induct)
  case (1 r p s)
  show ?case
  proof (cases "search r p s 0")
    case None
    with "1.prems" show ?thesis by (simp add: matchAllFrom.simps)
  next
    case (Some m)
    define e where "e = index m + length (whole m)"
    consider (head) "w = whole m"
      | (empty) "whole m = []" "\<not> length s \<le> e"
          "w \<in> set (matchAllFrom r (Some (s ! e)) (drop (Suc e) s))"
      | (more) "whole m \<noteq> []" "w \<in> set (matchAllFrom r (Some (s ! (e - 1))) (drop e s))"
      using "1.prems" Some
      by (subst (asm) matchAllFrom.simps) (auto simp: Let_def e_def split: if_splits)
    then show ?thesis
    proof cases
      case head
      with Some show ?thesis by blast
    next
      case empty
      from "1.IH"(1) [OF Some e_def empty] show ?thesis .
    next
      case more
      from "1.IH"(2) [OF Some e_def more] show ?thesis .
    qed
  qed
qed

lemma str_matchAll_lang: "w \<in> set (str_matchAll text r) \<Longrightarrow> w \<in> lang r"
  using matchAllFrom_sound search_whole_lang unfolding str_matchAll_def by blast

lemma str_match_self:
  assumes "noWordB r" and "u \<in> lang r"
  shows "str_match (a @ u) r \<noteq> None"
proof -
  have "rmatch r (p, u, Map.empty) \<noteq> []" for p
  proof -
    from rmatch_complete [OF assms, of "[]" p Map.empty] obtain p' c'
      where "(p', [], c') \<in> set (rmatch r (p, u, Map.empty))" by auto
    then show ?thesis by auto
  qed
  then have h: "\<forall>p. rmatch r (p, drop (length a) (a @ u), Map.empty) \<noteq> []"
    by simp
  have "search r None (a @ u) 0 \<noteq> None"
    by (rule search_complete [OF _ h]) simp
  then show ?thesis by (simp add: str_match_def)
qed

text \<open>The capture of a group that ends an expression.\<close>

lemma rmatch_Grp_Rep:
  assumes "(p', s', c') \<in> set (rmatch (Grp i (Rep g lo hi P)) (p, s, c))"
  shows "\<exists>v. c' i = Some v \<and> list_all P v \<and> lo \<le> length v"
proof -
  from assms obtain c0 where 1: "(p', s', c0) \<in> set (rep g lo hi P p s c)"
    and 2: "c' = c0(i \<mapsto> take (length s - length s') s)"
    by auto
  from rep_sound [OF 1] obtain v where "s = v @ s'" "list_all P v" "lo \<le> length v"
    by blast
  with 2 show ?thesis by simp
qed

lemma rmatch_seqs_last:
  "st' \<in> set (rmatch (seqs (rs @ [r])) st) \<Longrightarrow> \<exists>st0. st' \<in> set (rmatch r st0)"
proof (induction rs arbitrary: st)
  case Nil
  then have "st' \<in> set (rmatch r st)" by simp
  then show ?case by (rule exI)
next
  case (Cons a rs)
  have "seqs ((a # rs) @ [r]) = Seq a (seqs (rs @ [r]))"
    by (cases rs) simp_all
  with Cons.prems obtain st1 where "st' \<in> set (rmatch (seqs (rs @ [r])) st1)"
    by auto
  from Cons.IH [OF this] show ?case .
qed

lemma str_match_last_group:
  assumes "str_match text (seqs (rs @ [Grp i (Rep g lo hi P)])) = Some m"
  shows "list_all P (group m i) \<and> lo \<le> length (group m i)"
proof -
  from search_sound [OF assms [unfolded str_match_def]] obtain p0 s0 p' s'
    where "(p', s', groups m) \<in> set (rmatch (seqs (rs @ [Grp i (Rep g lo hi P)])) (p0, s0, Map.empty))"
    by blast
  from rmatch_seqs_last [OF this] obtain st0
    where "(p', s', groups m) \<in> set (rmatch (Grp i (Rep g lo hi P)) st0)" by blast
  then obtain v where "groups m i = Some v" "list_all P v" "lo \<le> length v"
    using rmatch_Grp_Rep [of p' s' "groups m" i g lo hi P "fst st0" "fst (snd st0)" "snd (snd st0)"]
    by auto
  then show ?thesis by (simp add: group_def)
qed

section \<open>The work order of a TSEL request\<close>











text \<open>With the line \<open>WORKORDER : WO0042\<close> the work order is \<open>WO0042\<close>; and the white
  space after the colon of an empty work order runs over the line break, to the label
  of the next line.\<close>

lemma tsel_workorder_samples:
  "workorder (parseAktivasi ''Budi'' tselTextWO [''1'', ''@budi'', ''USER'', ''Aktif''])
     = ''WO0042''"
  "workorder (parseAktivasi ''Budi''
     (''CHANNEL : DIGIPOS'' @ [CHR 0x0A] @ ''WORKORDER :'' @ [CHR 0x0A] @ ''AO : SC000111'')
     [''1'', ''@budi'', ''USER'', ''Aktif'']) = ''AO''"
  by code_simp+


section \<open>The last order line and the first customer line of a BGES or WMS request\<close>

lemma lang_aoLine: "w \<in> lang re_aoLine \<Longrightarrow> \<exists>a u. w = a @ u \<and> u \<in> lang re_sc"
proof -
  assume "w \<in> lang re_aoLine"
  then obtain a x s d where "w = a @ x @ s @ d" "s \<in> lang (lit ''SC'')"
    "d \<in> lang (atLeastN 6 isDigit)"
    by (auto simp: re_aoLine_def)
  then have "w = (a @ x) @ (s @ d)" "s @ d \<in> lang re_sc"
    by (auto simp: re_sc_def)
  then show ?thesis by blast
qed

lemma noWordB_re_sc: "noWordB re_sc"
  by (simp add: re_sc_def lit_def)

lemma noWordB_re_customer: "noWordB re_customer"
  by (simp add: re_customer_def lit_def)

lemma sc_of_order_line:
  assumes "w \<in> set (str_matchAll text re_aoLine)"
  shows "\<exists>sc. str_match w re_sc = Some sc \<and> list_all isDigit (group sc 1) \<and>
    6 \<le> length (group sc 1)"
proof -
  from str_matchAll_lang [OF assms] lang_aoLine obtain a u
    where "w = a @ u" "u \<in> lang re_sc" by blast
  with str_match_self [OF noWordB_re_sc] obtain sc where sc: "str_match w re_sc = Some sc"
    by blast
  have "re_sc = seqs ([lit ''SC''] @ [Grp 1 (atLeastN 6 isDigit)])"
    by (simp add: re_sc_def)
  with sc have "str_match w (seqs ([lit ''SC''] @ [Grp 1 (atLeastN 6 isDigit)])) = Some sc"
    by (simp only:)
  then have "list_all isDigit (group sc 1) \<and> 6 \<le> length (group sc 1)"
    by (rule str_match_last_group)
  with sc show ?thesis by blast
qed

lemma name_of_customer_line:
  assumes "w \<in> set (str_matchAll text re_customer)"
  shows "\<exists>nm. str_match w re_customer = Some nm"
proof -
  from str_matchAll_lang [OF assms] have "w \<in> lang re_customer" .
  with str_match_self [OF noWordB_re_customer, of w "[]"] show ?thesis by auto
qed

lemma parseAktivasi_BGES:
  "detectOwner text = ''BGES'' \<or> detectOwner text = ''WMS'' \<Longrightarrow>
   parseAktivasi username text userRow =
     parseBGES text (detectOwner text) (removeAt (orElse (cell userRow 1) username))"
  by (auto simp: parseAktivasi_def Let_def)

lemma trim_Nil: "trim [] = []"
  by (simp add: trim_def)

text \<open>
  C2. For a text that the classifier tags BGES or WMS and that has a match of the order
  line pattern \<open>AO\|.*?(SC\d{6,})\<close> and a match of the customer line pattern, the
  reference number and the work order are \<open>SC\<close> and the digits that \<open>SC(\d{6,})\<close> finds in
  the last match of the order line pattern (six digits or more; the search succeeds),
  and the customer name is the trimmed capture of the customer line pattern in the
  first of its matches.
\<close>

theorem bges_last_order_first_customer:
  "(detectOwner text = ''BGES'' \<or> detectOwner text = ''WMS'') \<and>
   str_matchAll text re_aoLine \<noteq> [] \<and> str_matchAll text re_customer \<noteq> [] \<longrightarrow>
   (\<exists>sc nm.
      str_match (last (str_matchAll text re_aoLine)) re_sc = Some sc \<and>
      ao (parseAktivasi username text userRow) = ''SC'' @ group sc 1 \<and>
      list_all isDigit (group sc 1) \<and> 6 \<le> length (group sc 1) \<and>
      workorder (parseAktivasi username text userRow) =
        ao (parseAktivasi username text userRow) \<and>
      str_match (hd (str_matchAll text re_customer)) re_customer = Some nm \<and>
      customerName (parseAktivasi username text userRow) = trim (group nm 1))"
proof
  let ?p = "parseAktivasi username text userRow"
  let ?as = "str_matchAll text re_aoLine"
  let ?cs = "str_matchAll text re_customer"
  assume h: "(detectOwner text = ''BGES'' \<or> detectOwner text = ''WMS'') \<and>
    ?as \<noteq> [] \<and> ?cs \<noteq> []"
  then have own: "detectOwner text = ''BGES'' \<or> detectOwner text = ''WMS''"
    and as: "?as \<noteq> []" and cs: "?cs \<noteq> []"
    by simp_all
  from as have "last ?as \<in> set ?as" by simp
  from sc_of_order_line [OF this] obtain sc
    where sc: "str_match (last ?as) re_sc = Some sc" "list_all isDigit (group sc 1)"
      "6 \<le> length (group sc 1)"
    by blast
  from cs have "hd ?cs \<in> set ?cs" by simp
  from name_of_customer_line [OF this] obtain nm
    where nm: "str_match (hd ?cs) re_customer = Some nm" by blast
  obtain a as' where as': "?as = a # as'" using as by (cases ?as) auto
  obtain c cs' where cs': "?cs = c # cs'" using cs by (cases ?cs) auto
  have p: "?p = parseBGES text (detectOwner text) (removeAt (orElse (cell userRow 1) username))"
    by (rule parseAktivasi_BGES [OF own])
  have ao: "ao ?p = ''SC'' @ group sc 1"
    using sc(1) as' by (simp add: p parseBGES_def Let_def)
  have wo: "workorder ?p = ao ?p"
    by (simp add: p parseBGES_def Let_def)
  have "customerName ?p = (if group nm 1 \<noteq> [] then trim (group nm 1) else [])"
    using nm cs' by (simp add: p parseBGES_def Let_def)
  then have cn: "customerName ?p = trim (group nm 1)"
    by (simp add: trim_Nil)
  from sc nm ao wo cn
  show "\<exists>sc nm.
      str_match (last ?as) re_sc = Some sc \<and>
      ao ?p = ''SC'' @ group sc 1 \<and>
      list_all isDigit (group sc 1) \<and> 6 \<le> length (group sc 1) \<and>
      workorder ?p = ao ?p \<and>
      str_match (hd ?cs) re_customer = Some nm \<and>
      customerName ?p = trim (group nm 1)"
    by blast
qed

text \<open>
  The request \<open>bgesText\<close> has two order lines and one customer line: the record has the
  number of the second order line and the name of the customer line.
\<close>

theorem bges_last_order_first_customer_witness:
  "str_matchAll bgesText re_aoLine =
     [''AO| MEDAN 1-ABC SC123456789'', ''AO| MEDAN 1-ABC SC987654321''] \<and>
   str_matchAll bgesText re_customer = [''01/09/2025 10:30 1 BUDI SANTOSO  ''] \<and>
   ao (parseAktivasi ''Budi'' bgesText [''1'', ''@budi'', ''USER'', ''Aktif''])
     = ''SC987654321'' \<and>
   workorder (parseAktivasi ''Budi'' bgesText [''1'', ''@budi'', ''USER'', ''Aktif''])
     = ''SC987654321'' \<and>
   customerName (parseAktivasi ''Budi'' bgesText [''1'', ''@budi'', ''USER'', ''Aktif''])
     = ''BUDI SANTOSO''"
proof -
  let ?u = "[''1'', ''@budi'', ''USER'', ''Aktif'']"
  have 1: "detectOwner bgesText = ''BGES''" by code_simp
  have 2: "str_matchAll bgesText re_aoLine =
     [''AO| MEDAN 1-ABC SC123456789'', ''AO| MEDAN 1-ABC SC987654321'']"
    by code_simp
  have 3: "str_matchAll bgesText re_customer = [''01/09/2025 10:30 1 BUDI SANTOSO  '']"
    by code_simp
  have 4: "map_option (\<lambda>m. group m 1) (str_match ''AO| MEDAN 1-ABC SC987654321'' re_sc)
      = Some ''987654321''"
    by code_simp
  have 5: "map_option (\<lambda>m. trim (group m 1))
      (str_match ''01/09/2025 10:30 1 BUDI SANTOSO  '' re_customer) = Some ''BUDI SANTOSO''"
    by code_simp
  from bges_last_order_first_customer [of bgesText "''Budi''" ?u] 1 2 3
  obtain sc nm where r: "str_match ''AO| MEDAN 1-ABC SC987654321'' re_sc = Some sc"
    "ao (parseAktivasi ''Budi'' bgesText ?u) = ''SC'' @ group sc 1"
    "workorder (parseAktivasi ''Budi'' bgesText ?u) = ao (parseAktivasi ''Budi'' bgesText ?u)"
    "str_match ''01/09/2025 10:30 1 BUDI SANTOSO  '' re_customer = Some nm"
    "customerName (parseAktivasi ''Budi'' bgesText ?u) = trim (group nm 1)"
    by auto
  from r(1) 4 have "group sc 1 = ''987654321''" by simp
  moreover from r(4) 5 have "trim (group nm 1) = ''BUDI SANTOSO''" by simp
  ultimately show ?thesis using 2 3 r by simp
qed

text \<open>A first customer line whose name ends at two no-break spaces, before a second
  customer line: the name is the one of the first line.\<close>

lemma customer_nbsp_sample:
  "customerName (parseAktivasi ''Budi''
     (''01/09/2025 10:30 1 ANI'' @ [CHR 0xA0, CHR 0xA0] @ ''INDIBIZ'' @ [CHR 0x0A] @
      ''02/09/2025 11:30 2 BUDI  INDIBIZ'' @ [CHR 0x0A] @ ''AO| MEDAN SC123456789'')
     [''1'', ''@budi'', ''USER'', ''Aktif'']) = ''ANI''"
  by code_simp

end
